theory Spec2Isabelle
  imports Main "HOL-Library.List_Lexorder" "HOL-Library.FSet" "HOL-Library.Sublist"
begin

section \<open>Python strings\<close>

text \<open>
  A Python \<open>str\<close> is a sequence of Unicode code points. It is modelled as a list of
  natural numbers, one per code point, so that the comparison of two strings
  (\<open>sorted\<close>, \<open>max\<close>) is the lexicographic order of the lists and \<open>str.strip\<close> sees
  every whitespace code point. A literal is written \<open>py ''...''\<close>.
\<close>

type_synonym pystr = "nat list"

abbreviation (input) py :: "string \<Rightarrow> pystr" where
  "py cs \<equiv> map of_char cs"

text \<open>
  \<open>str.isspace\<close> on one code point, as CPython decides it: the characters of
  bidirectional type WS, B or S and of category Zs.
\<close>

definition isspace :: "nat \<Rightarrow> bool" where
  "isspace c \<longleftrightarrow>
     (9 \<le> c \<and> c \<le> 13) \<or> (28 \<le> c \<and> c \<le> 32) \<or> c = 133 \<or> c = 160 \<or> c = 5760 \<or>
     (8192 \<le> c \<and> c \<le> 8202) \<or> c = 8232 \<or> c = 8233 \<or> c = 8239 \<or> c = 8287 \<or> c = 12288"

text \<open>\<open>s.strip()\<close>: leading whitespace removed, then trailing whitespace.\<close>

definition strip :: "pystr \<Rightarrow> pystr" where
  "strip s = rev (dropWhile isspace (rev (dropWhile isspace s)))"

text \<open>\<open>pattern in s\<close> for two strings: \<open>pattern\<close> occurs in \<open>s\<close> as a substring.\<close>

fun py_in :: "pystr \<Rightarrow> pystr \<Rightarrow> bool" where
  "py_in pattern [] = (pattern = [])"
| "py_in pattern (c # cs) = (prefix pattern (c # cs) \<or> py_in pattern cs)"

section \<open>Exceptions\<close>

text \<open>
  Every raise of the source is a value \<open>Inl e\<close>. The exceptions listed are subclasses of
  Python's \<open>Exception\<close>, which is what \<open>except Exception\<close> catches.
\<close>

datatype py_exception =
  HTTPError | URLError | JSONDecodeError | ValueError | TypeError | AttributeError

text \<open>\<open>try: body except Exception as e: handler\<close>.\<close>

definition try_except ::
  "py_exception + 'a \<Rightarrow> (py_exception \<Rightarrow> py_exception + 'a) \<Rightarrow> py_exception + 'a" where
  "try_except body handler = (case body of Inl e \<Rightarrow> handler e | Inr v \<Rightarrow> Inr v)"

text \<open>\<open>d.get(key, dflt)\<close> where the key's entry is an optional field.\<close>

definition dict_get :: "'a option \<Rightarrow> 'a \<Rightarrow> 'a" where
  "dict_get entry dflt = (case entry of None \<Rightarrow> dflt | Some v \<Rightarrow> v)"

section \<open>JSON values\<close>

text \<open>
  What \<open>json.loads\<close> returns: \<open>None\<close>, a \<open>bool\<close>, an \<open>int\<close>, a \<open>float\<close>, a \<open>str\<close>, a
  \<open>list\<close> or a \<open>dict\<close> with string keys. A finite float \<open>Finite m e\<close> is the number
  \<open>m * 2 ^ e\<close>; \<open>json.loads\<close> also accepts \<open>Infinity\<close>, \<open>-Infinity\<close> and \<open>NaN\<close>. A dict is
  the list of its items, in insertion order; its keys are distinct.
\<close>

datatype py_float = Finite int int | Infinite bool | NaN

datatype json =
    JNull
  | JBool bool
  | JInt int
  | JFloat py_float
  | JStr pystr
  | JArr "json list"
  | JObj "(pystr \<times> json) list"

text \<open>The truth value of a value, as \<open>if v:\<close> takes it.\<close>

fun py_bool :: "json \<Rightarrow> bool" where
  "py_bool JNull = False"
| "py_bool (JBool b) = b"
| "py_bool (JInt i) = (i \<noteq> 0)"
| "py_bool (JFloat (Finite m e)) = (m \<noteq> 0)"
| "py_bool (JFloat (Infinite s)) = True"
| "py_bool (JFloat NaN) = True"
| "py_bool (JStr s) = (s \<noteq> [])"
| "py_bool (JArr xs) = (xs \<noteq> [])"
| "py_bool (JObj items) = (items \<noteq> [])"

text \<open>
  \<open>d.get(key, dflt)\<close> on an arbitrary value: only a dict has the method \<open>get\<close>, on every
  other value the attribute lookup raises \<open>AttributeError\<close>.
\<close>

definition obj_get :: "json \<Rightarrow> pystr \<Rightarrow> json \<Rightarrow> py_exception + json" where
  "obj_get d key dflt =
     (case d of
        JObj items \<Rightarrow> Inr (dict_get (map_of items key) dflt)
      | _ \<Rightarrow> Inl AttributeError)"

text \<open>
  \<open>for x in v\<close>: the elements of a list, the characters of a string, the keys of a
  dict; the other values are not iterable.
\<close>

fun py_iter :: "json \<Rightarrow> py_exception + json list" where
  "py_iter (JArr xs) = Inr xs"
| "py_iter (JStr s) = Inr (map (\<lambda>c. JStr [c]) s)"
| "py_iter (JObj items) = Inr (map (\<lambda>item. JStr (fst item)) items)"
| "py_iter v = Inl TypeError"

text \<open>
  \<open>pattern in v\<close> for a string \<open>pattern\<close>: a substring of a string, an element of a
  list, a key of a dict; on the other values the operator raises \<open>TypeError\<close>.
\<close>

fun py_contains :: "pystr \<Rightarrow> json \<Rightarrow> py_exception + bool" where
  "py_contains pattern (JStr s) = Inr (py_in pattern s)"
| "py_contains pattern (JArr xs) = Inr (JStr pattern \<in> set xs)"
| "py_contains pattern (JObj items) = Inr (pattern \<in> fst ` set items)"
| "py_contains pattern v = Inl TypeError"

text \<open>
  \<open>s.add(v)\<close> on a set: a list or a dict is unhashable and raises \<open>TypeError\<close>, every
  other value is added. (Python takes \<open>True\<close>, \<open>1\<close> and \<open>1.0\<close> for one element of a
  set; the client adds strings only, as is proved of \<open>get_work_item_contributors\<close>.)
\<close>

fun hashable :: "json \<Rightarrow> bool" where
  "hashable (JArr xs) = False"
| "hashable (JObj items) = False"
| "hashable v = True"

definition set_add :: "json \<Rightarrow> json fset \<Rightarrow> py_exception + json fset" where
  "set_add v s = (if hashable v then Inr (finsert v s) else Inl TypeError)"

section \<open>Data model (models.py)\<close>

record WorkItem =
  item_id :: int
  title :: pystr
  item_type :: pystr
  state :: pystr
  iteration_path :: pystr
  item_notes :: "pystr option"

record Release =
  microservice :: pystr
  version :: pystr
  prod_deploy_time :: "pystr option"
  release_id :: pystr
  definition_id :: pystr

section \<open>API gateway (azure\_devops\_client.py)\<close>

subsection \<open>The documents of the remote service\<close>

text \<open>
  The release and build documents are modelled by the keys the client reads. A key
  read with \<open>.get\<close> is an optional field: \<open>None\<close> when the document has no such key.
\<close>

record deploy_step =
  lastModifiedOn :: "pystr option"

record environment =
  env_name :: "pystr option"
  deploySteps :: "deploy_step list option"

record release_definition =
  rd_name :: "pystr option"
  rd_id :: "pystr option"

record release_data =
  releaseDefinition :: "release_definition option"
  rel_name :: "pystr option"
  rel_id :: "pystr option"
  environments :: "environment list option"

record build_definition =
  bd_name :: "pystr option"

record build =
  build_def :: "build_definition option"
  buildNumber :: "pystr option"

text \<open>
  The remote service, as the client sees it through \<open>urlopen\<close> and \<open>json.loads\<close>: each
  request either raises or yields a document. The release and build requests are
  determined by the release tag and yield a document whose list under the key
  \<open>'value'\<close> is optional; the revision-history request is determined by the work item
  id and yields whatever JSON value the service sent.
\<close>

record remote =
  classic_releases_api :: "pystr \<Rightarrow> py_exception + release_data list option"
  builds_api :: "pystr \<Rightarrow> py_exception + build list option"
  updates_api :: "int \<Rightarrow> py_exception + json"

subsection \<open>Notes\<close>

text \<open>
  \<open>_parse_notes_field\<close>: \<open>not raw_notes\<close> holds of \<open>None\<close> and of the empty string;
  an empty result of \<open>strip\<close> is returned as \<open>None\<close>.
\<close>

definition parse_notes_field :: "pystr option \<Rightarrow> pystr option" where
  "parse_notes_field raw_notes =
     (case raw_notes of
        None \<Rightarrow> None
      | Some raw \<Rightarrow>
          if raw = [] then None
          else (let cleaned_notes = strip raw
                in if cleaned_notes \<noteq> [] then Some cleaned_notes else None))"

subsection \<open>Contributors\<close>

definition SYSTEM_ACCOUNT_PATTERNS :: "pystr list" where
  "SYSTEM_ACCOUNT_PATTERNS =
     [py ''Microsoft.VisualStudio.Services'', py ''Project Collection Build Service'',
      py ''<'', py ''>'']"

text \<open>
  \<open>any(pattern in display_name for pattern in patterns)\<close>: the patterns are tried in
  order, the first that occurs ends the search, a raise of \<open>in\<close> ends it too.
\<close>

fun any_pattern_in :: "pystr list \<Rightarrow> json \<Rightarrow> py_exception + bool" where
  "any_pattern_in [] display_name = Inr False"
| "any_pattern_in (pattern # patterns) display_name =
     (case py_contains pattern display_name of
        Inl e \<Rightarrow> Inl e
      | Inr found \<Rightarrow> if found then Inr True else any_pattern_in patterns display_name)"

definition is_system_account :: "json \<Rightarrow> py_exception + bool" where
  "is_system_account display_name = any_pattern_in SYSTEM_ACCOUNT_PATTERNS display_name"

text \<open>
  \<open>_extract_contributor\<close> returns the display name or \<open>None\<close> (\<open>JNull\<close>). Both \<open>get\<close>
  calls raise on a value that is not a dict: an update that is not an object, and a
  \<open>revisedBy\<close> entry that is present and not an object (\<open>null\<close>, for one).
\<close>

definition extract_contributor :: "json \<Rightarrow> py_exception + json" where
  "extract_contributor upd =
     (case obj_get upd (py ''revisedBy'') (JObj []) of
        Inl e \<Rightarrow> Inl e
      | Inr revised_by \<Rightarrow>
          (case obj_get revised_by (py ''displayName'') JNull of
             Inl e \<Rightarrow> Inl e
           | Inr display_name \<Rightarrow>
               if py_bool display_name then
                 (case is_system_account display_name of
                    Inl e \<Rightarrow> Inl e
                  | Inr system_account \<Rightarrow>
                      if \<not> system_account then Inr display_name else Inr JNull)
               else Inr JNull))"

text \<open>
  \<open>_fetch_work_item_updates\<close>: the request, then \<open>result.get('value', [])\<close> on the
  document.
\<close>

definition fetch_work_item_updates :: "remote \<Rightarrow> int \<Rightarrow> py_exception + json" where
  "fetch_work_item_updates w work_item_id =
     (case updates_api w work_item_id of
        Inl e \<Rightarrow> Inl e
      | Inr result \<Rightarrow> obj_get result (py ''value'') (JArr []))"

text \<open>
  The set \<open>contributors\<close> is one object that the loops update in place, so the loops
  pass it along and hand it back together with the exception that ended them, if any:
  what was added before a raise stays in the set.

  The inner loop, over the updates of one work item.
\<close>

fun updates_loop :: "json list \<Rightarrow> json fset \<Rightarrow> py_exception option \<times> json fset" where
  "updates_loop [] contributors = (None, contributors)"
| "updates_loop (upd # updates) contributors =
     (case extract_contributor upd of
        Inl e \<Rightarrow> (Some e, contributors)
      | Inr contributor \<Rightarrow>
          if py_bool contributor then
            (case set_add contributor contributors of
               Inl e \<Rightarrow> (Some e, contributors)
             | Inr contributors' \<Rightarrow> updates_loop updates contributors')
          else updates_loop updates contributors)"

text \<open>The body of the \<open>try\<close> for one id: the fetch, then the inner loop.\<close>

definition contributors_body ::
  "remote \<Rightarrow> int \<Rightarrow> json fset \<Rightarrow> py_exception option \<times> json fset" where
  "contributors_body w work_item_id contributors =
     (case fetch_work_item_updates w work_item_id of
        Inl e \<Rightarrow> (Some e, contributors)
      | Inr updates \<Rightarrow>
          (case py_iter updates of
             Inl e \<Rightarrow> (Some e, contributors)
           | Inr upds \<Rightarrow> updates_loop upds contributors))"

text \<open>
  The outer loop. \<open>except Exception\<close> catches whatever the body raised, logs a warning
  and continues with the next id.
\<close>

fun contributors_loop ::
  "remote \<Rightarrow> int list \<Rightarrow> json fset \<Rightarrow> py_exception + json fset" where
  "contributors_loop w [] contributors = Inr contributors"
| "contributors_loop w (work_item_id # ids) contributors =
     (case contributors_body w work_item_id contributors of
        (Some e, contributors') \<Rightarrow> contributors_loop w ids contributors'
      | (None, contributors') \<Rightarrow> contributors_loop w ids contributors')"

definition get_work_item_contributors ::
  "remote \<Rightarrow> int list \<Rightarrow> py_exception + json fset" where
  "get_work_item_contributors w work_item_ids =
     (if work_item_ids = [] then Inr {||}
      else contributors_loop w work_item_ids {||})"

subsection \<open>Releases\<close>

text \<open>
  \<open>_extract_prod_deployment_time\<close>: the loop over the environments returns at the
  first environment of the production name whose deploy steps are not empty.
\<close>

fun prod_time_loop :: "pystr \<Rightarrow> environment list \<Rightarrow> pystr option" where
  "prod_time_loop production_environment [] = None"
| "prod_time_loop production_environment (env # envs) =
     (if env_name env = Some production_environment then
        (let deploy_steps = dict_get (deploySteps env) []
         in if deploy_steps \<noteq> [] then lastModifiedOn (last deploy_steps)
            else prod_time_loop production_environment envs)
      else prod_time_loop production_environment envs)"

definition extract_prod_deployment_time :: "pystr \<Rightarrow> release_data \<Rightarrow> pystr option" where
  "extract_prod_deployment_time production_environment rdata =
     prod_time_loop production_environment (dict_get (environments rdata) [])"

definition parse_classic_release :: "pystr \<Rightarrow> release_data \<Rightarrow> Release" where
  "parse_classic_release production_environment rdata =
     \<lparr>microservice =
        dict_get (rd_name (dict_get (releaseDefinition rdata) \<lparr>rd_name = None, rd_id = None\<rparr>))
          (py ''Unknown''),
      version = dict_get (rel_name rdata) (py ''Unknown''),
      prod_deploy_time = extract_prod_deployment_time production_environment rdata,
      release_id = dict_get (rel_id rdata) [],
      definition_id =
        dict_get (rd_id (dict_get (releaseDefinition rdata) \<lparr>rd_name = None, rd_id = None\<rparr>)) []\<rparr>"

definition get_classic_releases ::
  "remote \<Rightarrow> pystr \<Rightarrow> pystr \<Rightarrow> py_exception + Release list" where
  "get_classic_releases w production_environment release_tag =
     (case classic_releases_api w release_tag of
        Inl e \<Rightarrow> Inl e
      | Inr result \<Rightarrow>
          Inr (map (parse_classic_release production_environment) (dict_get result [])))"

text \<open>One \<open>Release\<close> of the build tier: the fields not given keep the dataclass defaults.\<close>

definition build_release :: "build \<Rightarrow> Release" where
  "build_release b =
     \<lparr>microservice = dict_get (bd_name (dict_get (build_def b) \<lparr>bd_name = None\<rparr>)) (py ''Unknown''),
      version = dict_get (buildNumber b) (py ''Unknown''),
      prod_deploy_time = None,
      release_id = [],
      definition_id = []\<rparr>"

definition builds_body :: "remote \<Rightarrow> pystr \<Rightarrow> py_exception + Release list" where
  "builds_body w release_tag =
     (case builds_api w release_tag of
        Inl e \<Rightarrow> Inl e
      | Inr result \<Rightarrow> Inr (map build_release (dict_get result [])))"

definition get_releases_from_builds :: "remote \<Rightarrow> pystr \<Rightarrow> py_exception + Release list" where
  "get_releases_from_builds w release_tag =
     try_except (builds_body w release_tag) (\<lambda>e. Inr [])"

definition get_releases :: "remote \<Rightarrow> pystr \<Rightarrow> pystr \<Rightarrow> py_exception + Release list" where
  "get_releases w production_environment release_tag =
     try_except (get_classic_releases w production_environment release_tag)
       (\<lambda>e. get_releases_from_builds w release_tag)"

section \<open>Report generator (markdown\_generator.py)\<close>

subsection \<open>Formatting helpers\<close>

text \<open>The decimal digits of an integer, as an f-string prints it.\<close>

fun str_of_nat :: "nat \<Rightarrow> pystr" where
  "str_of_nat n = (if n < 10 then [48 + n] else str_of_nat (n div 10) @ [48 + n mod 10])"

declare str_of_nat.simps [simp del]

definition str_of_int :: "int \<Rightarrow> pystr" where
  "str_of_int i = (if i < 0 then 45 # str_of_nat (nat (- i)) else str_of_nat (nat i))"

text \<open>\<open>sep.join(xs)\<close>.\<close>

fun join :: "pystr \<Rightarrow> pystr list \<Rightarrow> pystr" where
  "join sep [] = []"
| "join sep [x] = x"
| "join sep (x # y # ys) = x @ sep @ join sep (y # ys)"

text \<open>\<open>s.replace(old, new)\<close> for a single character \<open>old\<close>: every occurrence is replaced.\<close>

definition str_replace_char :: "nat \<Rightarrow> pystr \<Rightarrow> pystr \<Rightarrow> pystr" where
  "str_replace_char old new s = concat (map (\<lambda>c. if c = old then new else [c]) s)"

text \<open>
  The truth value Python gives an optional string in a condition: \<open>None\<close> and the
  empty string are false.
\<close>

definition truthy :: "pystr option \<Rightarrow> bool" where
  "truthy v = (case v of None \<Rightarrow> False | Some s \<Rightarrow> s \<noteq> [])"

text \<open>
  \<open>max(xs)\<close> on a list of strings: the first of the largest elements; \<open>ValueError\<close> on
  an empty list.
\<close>

definition py_max :: "pystr list \<Rightarrow> py_exception + pystr" where
  "py_max xs =
     (case xs of
        [] \<Rightarrow> Inl ValueError
      | x # rest \<Rightarrow> Inr (fold (\<lambda>y m. if m < y then y else m) rest x))"

subsection \<open>Dates\<close>

text \<open>
  The part of a \<open>datetime\<close> that the format \<open>'%B %d, %Y'\<close> reads. The parser
  \<open>datetime.fromisoformat\<close> belongs to the standard library and is a parameter of the
  functions that call it: it raises or returns a \<open>datetime\<close>. \<open>%B\<close> is the full month
  name, \<open>%d\<close> the day as two digits, \<open>%Y\<close> the year in decimal.
\<close>

datatype month =
  January | February | March | April | May | June | July | August | September | October
  | November | December

record datetime =
  dt_year :: nat
  dt_month :: month
  dt_day :: nat

fun month_name :: "month \<Rightarrow> pystr" where
  "month_name January = py ''January''"
| "month_name February = py ''February''"
| "month_name March = py ''March''"
| "month_name April = py ''April''"
| "month_name May = py ''May''"
| "month_name June = py ''June''"
| "month_name July = py ''July''"
| "month_name August = py ''August''"
| "month_name September = py ''September''"
| "month_name October = py ''October''"
| "month_name November = py ''November''"
| "month_name December = py ''December''"

definition strftime_B_d_Y :: "datetime \<Rightarrow> pystr" where
  "strftime_B_d_Y d =
     month_name (dt_month d) @ py '' '' @
     (if dt_day d < 10 then py ''0'' else []) @ str_of_nat (dt_day d) @ py '', '' @
     str_of_nat (dt_year d)"

subsection \<open>The generator\<close>

record MarkdownGenerator =
  organization_url :: pystr
  project :: pystr

definition WORK_ITEM_TYPE_ORDER :: "pystr list" where
  "WORK_ITEM_TYPE_ORDER =
     [py ''Bug'', py ''Epic'', py ''Feature'', py ''User Story'', py ''Task'']"

text \<open>The icons are given by their code points.\<close>

definition WORK_ITEM_TYPE_EMOJIS :: "(pystr \<times> pystr) list" where
  "WORK_ITEM_TYPE_EMOJIS =
     [(py ''Bug'', [128027]), (py ''Epic'', [128216]), (py ''Feature'', [10024]),
      (py ''User Story'', [128221]), (py ''Task'', [128295]), (py ''Issue'', [9888, 65039]),
      (py ''Product Backlog Item'', [128203]), (py ''Impediment'', [128679])]"

definition get_work_item_type_emoji :: "pystr \<Rightarrow> pystr" where
  "get_work_item_type_emoji work_type =
     dict_get (map_of WORK_ITEM_TYPE_EMOJIS work_type) [128204]"

text \<open>
  \<open>_group_work_items_by_type\<close>. The dictionary is an association list in insertion
  order with one entry per key: \<open>grouped[item.type].append(item)\<close> extends the entry of
  the key, or adds the entry when the key is new.
\<close>

definition group_append ::
  "(pystr \<times> WorkItem list) list \<Rightarrow> WorkItem \<Rightarrow> (pystr \<times> WorkItem list) list" where
  "group_append grouped item =
     (case map_of grouped (item_type item) of
        None \<Rightarrow> grouped @ [(item_type item, [item])]
      | Some _ \<Rightarrow>
          map (\<lambda>(k, v). if k = item_type item then (k, v @ [item]) else (k, v)) grouped)"

definition group_work_items_by_type :: "WorkItem list \<Rightarrow> (pystr \<times> WorkItem list) list" where
  "group_work_items_by_type work_items = fold (\<lambda>item grouped. group_append grouped item) work_items []"

definition extract_release_date ::
  "(pystr \<Rightarrow> py_exception + datetime) \<Rightarrow> Release list \<Rightarrow> py_exception + pystr" where
  "extract_release_date fromisoformat releases =
     (if releases = [] then Inr (py ''Unreleased'')
      else
        (let prod_times =
               List.map_filter
                 (\<lambda>r. if truthy (prod_deploy_time r) then prod_deploy_time r else None) releases
         in if prod_times = [] then Inr (py ''Unreleased'')
            else
              (case py_max prod_times of
                 Inl e \<Rightarrow> Inl e
               | Inr latest_time \<Rightarrow>
                   (case fromisoformat (str_replace_char 90 (py ''+00:00'') latest_time) of
                      Inl e \<Rightarrow> Inl e
                    | Inr release_datetime \<Rightarrow> Inr (strftime_B_d_Y release_datetime)))))"

definition extract_iterations :: "WorkItem list \<Rightarrow> pystr" where
  "extract_iterations work_items =
     (if work_items = [] then py ''N/A''
      else
        (let iterations =
               fold (\<lambda>item s. if iteration_path item \<noteq> py ''N/A''
                               then finsert (iteration_path item) s else s)
                 work_items {||}
         in if iterations = {||} then py ''N/A''
            else join (py '', '') (rev (sorted_list_of_fset iterations))))"

definition breakdown_line :: "pystr \<Rightarrow> WorkItem list \<Rightarrow> pystr" where
  "breakdown_line work_type items =
     py ''- '' @ get_work_item_type_emoji work_type @ py '' **'' @ work_type @ py '':** '' @
     str_of_nat (length items)"

definition add_breakdown_by_type ::
  "pystr list \<Rightarrow> (pystr \<times> WorkItem list) list \<Rightarrow> pystr list" where
  "add_breakdown_by_type lines grouped_items =
     (let lines = lines @ [py ''**Breakdown by Type:**'', []];
          lines = fold (\<lambda>work_type ls.
                     case map_of grouped_items work_type of
                       None \<Rightarrow> ls
                     | Some items \<Rightarrow> ls @ [breakdown_line work_type items])
                   WORK_ITEM_TYPE_ORDER lines;
          lines = fold (\<lambda>work_type ls.
                     if work_type \<notin> set WORK_ITEM_TYPE_ORDER
                     then ls @ [breakdown_line work_type
                                 (dict_get (map_of grouped_items work_type) [])]
                     else ls)
                   (sort (map fst grouped_items)) lines
      in lines @ [[]])"

definition add_summary_section ::
  "(pystr \<Rightarrow> py_exception + datetime) \<Rightarrow> pystr list \<Rightarrow> WorkItem list \<Rightarrow> Release list \<Rightarrow>
   (pystr \<times> WorkItem list) list \<Rightarrow> py_exception + pystr list" where
  "add_summary_section fromisoformat lines work_items releases grouped_items =
     (let lines = lines @ [py ''## '' @ [128202] @ py '' Summary'', []]
      in case extract_release_date fromisoformat releases of
           Inl e \<Rightarrow> Inl e
         | Inr release_date \<Rightarrow>
             (let lines = lines @ [py ''**Release Date:** '' @ release_date, []];
                  iterations = extract_iterations work_items;
                  lines = lines @ [py ''**Iteration:** '' @ iterations, []];
                  total_items = length work_items;
                  microservices_count = (if releases \<noteq> [] then length releases else 0);
                  lines = lines @ [py ''**Total Work Items:** '' @ str_of_nat total_items];
                  lines = lines @
                    [py ''**Microservices Released:** '' @ str_of_nat microservices_count];
                  lines = lines @ [[]]
              in Inr (add_breakdown_by_type lines grouped_items)))"

definition binaries_row :: "MarkdownGenerator \<Rightarrow> Release \<Rightarrow> pystr" where
  "binaries_row gen release =
     (let pipeline_url =
            organization_url gen @ py ''/'' @ project gen @ py ''/_release?definitionId='' @
            definition_id release @ py ''&_a=releases&view=mine'';
          release_url =
            organization_url gen @ py ''/'' @ project gen @
            py ''/_releaseProgress?_a=release-pipeline-progress&releaseId='' @ release_id release;
          microservice_link = py ''['' @ microservice release @ py '']('' @ pipeline_url @ py '')'';
          version_link = py ''['' @ version release @ py '']('' @ release_url @ py '')''
      in py ''| '' @ microservice_link @ py '' | '' @ version_link @ py '' |'')"

definition add_binaries_section ::
  "MarkdownGenerator \<Rightarrow> pystr list \<Rightarrow> Release list \<Rightarrow> pystr list" where
  "add_binaries_section gen lines releases =
     (if releases = [] then lines
      else
        (let lines = lines @ [py ''## '' @ [128230] @ py '' Binaries'', [],
                              py ''| Microservice | Version |'',
                              py ''|--------------|---------|''];
             lines = fold (\<lambda>release ls. ls @ [binaries_row gen release])
                       (sort_key microservice releases) lines
         in lines @ [[]]))"

definition build_work_item_url :: "MarkdownGenerator \<Rightarrow> int \<Rightarrow> pystr" where
  "build_work_item_url gen work_item_id =
     organization_url gen @ py ''/'' @ project gen @ py ''/_workitems/edit/'' @
     str_of_int work_item_id"

definition filter_items_with_notes :: "WorkItem list \<Rightarrow> WorkItem list" where
  "filter_items_with_notes work_items =
     (let items_with_notes = filter (\<lambda>item. truthy (item_notes item)) work_items
      in sort_key item_id items_with_notes)"

subsection \<open>Deployment notes\<close>

text \<open>
  The first occurrence of \<open>pat\<close> in a string: what stands before it and what stands
  after it.
\<close>

fun split_first :: "pystr \<Rightarrow> pystr \<Rightarrow> (pystr \<times> pystr) option" where
  "split_first pat [] = (if pat = [] then Some ([], []) else None)"
| "split_first pat (c # cs) =
     (if prefix pat (c # cs) then Some ([], drop (length pat) (c # cs))
      else map_option (\<lambda>(before, rest). (c # before, rest)) (split_first pat cs))"

text \<open>
  \<open>re.findall(r'<li>(.*?)</li>', notes, re.DOTALL)\<close>. A match starts at the first
  \<open><li>\<close> at or after the scan position and ends at the first \<open></li>\<close> after it
  (the group is lazy, and with \<open>DOTALL\<close> the dot matches every character); the scan
  goes on behind the match. When no \<open></li>\<close> follows a \<open><li>\<close>, none follows a later
  one, and the scan ends.
\<close>

function findall_li :: "pystr \<Rightarrow> pystr list" where
  "findall_li s =
     (case split_first (py ''<li>'') s of
        None \<Rightarrow> []
      | Some (before, rest) \<Rightarrow>
          (case split_first (py ''</li>'') rest of
             None \<Rightarrow> []
           | Some (item, rest') \<Rightarrow> item # findall_li rest'))"
  by pat_completeness auto
termination
proof (relation "measure length")
  show "wf (measure length)"
    by simp
next
  fix s :: pystr and x2 before rest x2a item rest'
  assume a: "split_first (py ''<li>'') s = Some x2" "(before, rest) = x2"
    "split_first (py ''</li>'') rest = Some x2a" "(item, rest') = x2a"
  have len: "length s' = length a + length pat + length b"
    if "split_first pat s' = Some (a, b)" for pat s' :: pystr and a b
    using that
  proof (induction s' arbitrary: a)
    case Nil
    then show ?case by (simp split: if_splits)
  next
    case (Cons c cs)
    show ?case
    proof (cases "prefix pat (c # cs)")
      case True
      with Cons.prems have "a = []" "b = drop (length pat) (c # cs)"
        by simp_all
      moreover from True have "length pat \<le> length (c # cs)"
        by (rule prefix_length_le)
      ultimately show ?thesis by simp
    next
      case False
      with Cons.prems obtain a' where "split_first pat cs = Some (a', b)" "a = c # a'"
        by auto
      with Cons.IH [of a'] show ?thesis by simp
    qed
  qed
  from a len [of "py ''<li>''" s before rest] len [of "py ''</li>''" rest item rest']
  show "(rest', s) \<in> measure length"
    by simp
qed

declare findall_li.simps [simp del]

text \<open>
  \<open>re.sub(r'<[^>]+>', '', s)\<close>. At a \<open><\<close> the pattern matches when at least one
  character other than \<open>>\<close> follows and a \<open>>\<close> comes after that run; the match, up
  to that \<open>>\<close>, is removed and the scan goes on behind it. Everywhere else the character
  is kept.
\<close>

function sub_tags :: "pystr \<Rightarrow> pystr" where
  "sub_tags [] = []"
| "sub_tags (c # cs) =
     (if c = 60 \<and> takeWhile (\<lambda>x. x \<noteq> 62) cs \<noteq> [] \<and> dropWhile (\<lambda>x. x \<noteq> 62) cs \<noteq> []
      then sub_tags (tl (dropWhile (\<lambda>x. x \<noteq> 62) cs))
      else c # sub_tags cs)"
  by pat_completeness auto
termination
proof (relation "measure length")
  show "wf (measure length)"
    by simp
next
  fix c :: nat and cs :: pystr
  have "length (tl (dropWhile (\<lambda>x. x \<noteq> 62) cs)) \<le> length cs"
    using length_dropWhile_le [of "\<lambda>x. x \<noteq> 62" cs] by simp
  then show "(tl (dropWhile (\<lambda>x. x \<noteq> 62) cs), c # cs) \<in> measure length"
    by simp
next
  fix c :: nat and cs :: pystr
  show "(cs, c # cs) \<in> measure length"
    by simp
qed

declare sub_tags.simps [simp del]

definition convert_notes_to_list_items :: "pystr \<Rightarrow> pystr list" where
  "convert_notes_to_list_items notes_text =
     (let list_items = findall_li notes_text
      in if list_items \<noteq> [] then
           fold (\<lambda>item cleaned_items.
                   (let cleaned = strip (sub_tags item)
                    in if cleaned \<noteq> [] then cleaned_items @ [cleaned] else cleaned_items))
             list_items []
         else
           (let cleaned_notes = strip (sub_tags notes_text)
            in if cleaned_notes \<noteq> [] then [cleaned_notes] else []))"

text \<open>
  \<open>_add_deployment_instruction_item\<close>. \<open>re.findall\<close> raises \<open>TypeError\<close> on \<open>None\<close>;
  the call comes before the first \<open>append\<close>.
\<close>

definition add_deployment_instruction_item ::
  "MarkdownGenerator \<Rightarrow> pystr list \<Rightarrow> WorkItem \<Rightarrow> py_exception + pystr list" where
  "add_deployment_instruction_item gen lines item =
     (let work_item_url = build_work_item_url gen (item_id item)
      in case item_notes item of
           None \<Rightarrow> Inl TypeError
         | Some notes_text \<Rightarrow>
             (let note_items = convert_notes_to_list_items notes_text;
                  lines = lines @
                    [py ''- [#'' @ str_of_int (item_id item) @ py '']('' @ work_item_url @ py '')''];
                  lines = fold (\<lambda>note_item ls. ls @ [py ''  - '' @ note_item]) note_items lines
              in Inr (lines @ [[]])))"

fun deployment_loop ::
  "MarkdownGenerator \<Rightarrow> WorkItem list \<Rightarrow> pystr list \<Rightarrow> py_exception + pystr list" where
  "deployment_loop gen [] lines = Inr lines"
| "deployment_loop gen (item # items) lines =
     (case add_deployment_instruction_item gen lines item of
        Inl e \<Rightarrow> Inl e
      | Inr lines' \<Rightarrow> deployment_loop gen items lines')"

definition add_deployment_instructions_section ::
  "MarkdownGenerator \<Rightarrow> pystr list \<Rightarrow> WorkItem list \<Rightarrow> py_exception + pystr list" where
  "add_deployment_instructions_section gen lines work_items =
     (let items_with_notes = filter_items_with_notes work_items
      in if items_with_notes = [] then Inr lines
         else
           (let lines = lines @ [py ''## '' @ [128640] @ py '' Deployment Instructions'', []]
            in deployment_loop gen items_with_notes lines))"

subsection \<open>Changelog and contributors\<close>

text \<open>The two f-strings of \<open>_add_work_items_for_type\<close>: the heading of a group and the line of an item.\<close>

definition group_heading :: "pystr \<Rightarrow> WorkItem list \<Rightarrow> pystr" where
  "group_heading work_type items =
     (let emoji = get_work_item_type_emoji work_type
      in py ''### '' @ emoji @ py '' '' @ work_type @ py '' ('' @ str_of_nat (length items) @
         py '')'')"

definition changelog_line :: "MarkdownGenerator \<Rightarrow> WorkItem \<Rightarrow> pystr" where
  "changelog_line gen item =
     (let work_item_url = build_work_item_url gen (item_id item)
      in py ''- [#'' @ str_of_int (item_id item) @ py '']('' @ work_item_url @ py '') '' @
         title item)"

definition add_work_items_for_type ::
  "MarkdownGenerator \<Rightarrow> pystr list \<Rightarrow> pystr \<Rightarrow> WorkItem list \<Rightarrow> pystr list" where
  "add_work_items_for_type gen lines work_type items =
     (let lines = lines @ [group_heading work_type items];
          lines = lines @ [[]];
          sorted_items = sort_key item_id items;
          lines = fold (\<lambda>item ls. ls @ [changelog_line gen item]) sorted_items lines
      in lines @ [[]])"

definition add_changelog_section ::
  "MarkdownGenerator \<Rightarrow> pystr list \<Rightarrow> (pystr \<times> WorkItem list) list \<Rightarrow> pystr list" where
  "add_changelog_section gen lines grouped_items =
     (let lines = lines @ [py ''## '' @ [128221] @ py '' Changelog'', []];
          lines = fold (\<lambda>work_type ls.
                     case map_of grouped_items work_type of
                       None \<Rightarrow> ls
                     | Some items \<Rightarrow> add_work_items_for_type gen ls work_type items)
                   WORK_ITEM_TYPE_ORDER lines
      in fold (\<lambda>work_type ls.
                 if work_type \<notin> set WORK_ITEM_TYPE_ORDER
                 then add_work_items_for_type gen ls work_type
                        (dict_get (map_of grouped_items work_type) [])
                 else ls)
           (sort (map fst grouped_items)) lines)"

definition add_contributors_section :: "pystr list \<Rightarrow> pystr fset \<Rightarrow> pystr list" where
  "add_contributors_section lines contributors =
     (if contributors = {||} then lines
      else
        (let lines = lines @ [py ''## '' @ [128101] @ py '' Contributors'', []];
             lines = fold (\<lambda>contributor ls. ls @ [py ''- '' @ contributor])
                       (sorted_list_of_fset contributors) lines
         in lines @ [[]]))"

subsection \<open>The document\<close>

text \<open>
  \<open>generate\<close>: the lines of the document, and the lines joined by newlines. The
  summary section can raise (the date of the latest deployment is parsed there).
\<close>

definition generate_lines ::
  "(pystr \<Rightarrow> py_exception + datetime) \<Rightarrow> MarkdownGenerator \<Rightarrow> pystr \<Rightarrow> WorkItem list \<Rightarrow>
   Release list \<Rightarrow> pystr fset \<Rightarrow> py_exception + pystr list" where
  "generate_lines fromisoformat gen release_number work_items releases contributors =
     (let lines = [];
          grouped_items = group_work_items_by_type work_items;
          lines = lines @ [py ''# Release Notes - '' @ release_number];
          lines = lines @ [[]]
      in case add_summary_section fromisoformat lines work_items releases grouped_items of
           Inl e \<Rightarrow> Inl e
         | Inr lines \<Rightarrow>
             (let lines = add_binaries_section gen lines releases;
                  lines = add_changelog_section gen lines grouped_items
              in case add_deployment_instructions_section gen lines work_items of
                   Inl e \<Rightarrow> Inl e
                 | Inr lines \<Rightarrow> Inr (add_contributors_section lines contributors)))"

definition generate ::
  "(pystr \<Rightarrow> py_exception + datetime) \<Rightarrow> MarkdownGenerator \<Rightarrow> pystr \<Rightarrow> WorkItem list \<Rightarrow>
   Release list \<Rightarrow> pystr fset \<Rightarrow> py_exception + pystr" where
  "generate fromisoformat gen release_number work_items releases contributors =
     (case generate_lines fromisoformat gen release_number work_items releases contributors of
        Inl e \<Rightarrow> Inl e
      | Inr lines \<Rightarrow> Inr (join [10] lines))"

subsection \<open>The call from the script (generate\_release\_notes.py)\<close>

text \<open>
  \<open>MarkdownGenerator.__init__(self, organization_url, project)\<close> takes two positional
  arguments; Python raises \<open>TypeError\<close> on a call with another number of them.
\<close>

definition MarkdownGenerator_init :: "pystr list \<Rightarrow> py_exception + MarkdownGenerator" where
  "MarkdownGenerator_init args =
     (case args of
        [organization_url_arg, project_arg] \<Rightarrow>
          Inr \<lparr>organization_url = organization_url_arg, project = project_arg\<rparr>
      | _ \<Rightarrow> Inl TypeError)"

text \<open>
  The two statements of \<open>main\<close> that make the document: the generator is constructed
  with the organization, the project and the value of \<open>--sort-by\<close>, and \<open>generate\<close> is
  called on it.
\<close>

definition main_generate ::
  "(pystr \<Rightarrow> py_exception + datetime) \<Rightarrow> pystr \<Rightarrow> pystr \<Rightarrow> pystr \<Rightarrow> pystr \<Rightarrow> WorkItem list \<Rightarrow>
   Release list \<Rightarrow> pystr fset \<Rightarrow> py_exception + pystr" where
  "main_generate fromisoformat organization project_name sort_by release work_items releases
     contributors =
     (case MarkdownGenerator_init [organization, project_name, sort_by] of
        Inl e \<Rightarrow> Inl e
      | Inr generator \<Rightarrow>
          generate fromisoformat generator release work_items releases contributors)"

subsection \<open>Strings of whitespace and markup\<close>

text \<open>
  What the specification calls an input of whitespace and markup with no text: a
  sequence of whitespace characters and of tags, a tag being \<open><\<close>, a body of at least
  one character without \<open><\<close> and \<open>>\<close>, and \<open>>\<close>. This definition follows the
  specification; it is not part of the source.
\<close>

datatype markup_token = Whitespace nat | Tag pystr

fun wf_token :: "markup_token \<Rightarrow> bool" where
  "wf_token (Whitespace c) = isspace c"
| "wf_token (Tag body) = (body \<noteq> [] \<and> 60 \<notin> set body \<and> 62 \<notin> set body)"

fun render_token :: "markup_token \<Rightarrow> pystr" where
  "render_token (Whitespace c) = [c]"
| "render_token (Tag body) = 60 # body @ [62]"

definition render_markup :: "markup_token list \<Rightarrow> pystr" where
  "render_markup ts = concat (map render_token ts)"

subsection \<open>Kinds of lines\<close>

text \<open>
  For the proofs about sections: a plain line is neither a second-level heading (it
  does not start with \<open>##\<close> and a space) nor a table line (it does not start with
  \<open>|\<close>).
\<close>

definition plain_line :: "pystr \<Rightarrow> bool" where
  "plain_line l \<longleftrightarrow> \<not> prefix (py ''## '') l \<and> \<not> prefix (py ''|'') l"

subsection \<open>Revision histories\<close>

text \<open>
  What one work item adds to the set of contributors: the set that the body of the
  \<open>try\<close> leaves when it runs for this id alone, from the empty set.
\<close>

definition gathered :: "remote \<Rightarrow> int \<Rightarrow> json fset" where
  "gathered w work_item_id = snd (contributors_body w work_item_id {||})"

text \<open>
  An update passes when the inner loop gets through it without a raise: the extraction
  returns, and what it returns is not added or can be added.
\<close>

definition passes :: "json \<Rightarrow> bool" where
  "passes upd =
     (case extract_contributor upd of
        Inl e \<Rightarrow> False
      | Inr contributor \<Rightarrow> \<not> py_bool contributor \<or> hashable contributor)"

text \<open>
  The revision-history document as the service describes it: an object whose entry
  \<open>'value'\<close>, if there is one, is a list of revisions; a revision is an object whose
  entry \<open>'revisedBy'\<close>, if there is one, is an object; the entry \<open>'displayName'\<close> of that,
  if there is one, is a string or \<open>null\<close>.
\<close>

fun wf_display_name :: "json option \<Rightarrow> bool" where
  "wf_display_name None = True"
| "wf_display_name (Some JNull) = True"
| "wf_display_name (Some (JStr n)) = True"
| "wf_display_name (Some v) = False"

fun wf_revised_by :: "json option \<Rightarrow> bool" where
  "wf_revised_by None = True"
| "wf_revised_by (Some (JObj revised_by)) =
     wf_display_name (map_of revised_by (py ''displayName''))"
| "wf_revised_by (Some v) = False"

fun wf_update :: "json \<Rightarrow> bool" where
  "wf_update (JObj items) = wf_revised_by (map_of items (py ''revisedBy''))"
| "wf_update v = False"

fun wf_updates :: "json option \<Rightarrow> bool" where
  "wf_updates None = True"
| "wf_updates (Some (JArr upds)) = list_all wf_update upds"
| "wf_updates (Some v) = False"

fun wf_history :: "json \<Rightarrow> bool" where
  "wf_history (JObj items) = wf_updates (map_of items (py ''value''))"
| "wf_history v = False"

section \<open>Example inputs\<close>

text \<open>A classic release record with a development and a production environment.\<close>

definition ex_release :: release_data where
  "ex_release =
     \<lparr>releaseDefinition = None, rel_name = None, rel_id = None,
      environments = Some
        [\<lparr>env_name = Some (py ''DEV''),
          deploySteps = Some [\<lparr>lastModifiedOn = Some (py ''2025-11-05T11:39:14.667Z'')\<rparr>]\<rparr>,
         \<lparr>env_name = Some (py ''PROD''),
          deploySteps = Some [\<lparr>lastModifiedOn = Some (py ''2025-11-06T10:00:00.000Z'')\<rparr>,
                             \<lparr>lastModifiedOn = Some (py ''2025-11-06T11:39:14.667Z'')\<rparr>]\<rparr>]\<rparr>"

text \<open>A remote service on which every request raises.\<close>

definition failing_remote :: remote where
  "failing_remote =
     \<lparr>classic_releases_api = (\<lambda>tag. Inl HTTPError),
      builds_api = (\<lambda>tag. Inl URLError),
      updates_api = (\<lambda>i. Inl URLError)\<rparr>"

text \<open>A remote service whose classic-release request raises and whose build request succeeds.\<close>

definition builds_only_remote :: remote where
  "builds_only_remote =
     \<lparr>classic_releases_api = (\<lambda>tag. Inl HTTPError),
      builds_api = (\<lambda>tag. Inr (Some
        [\<lparr>build_def = Some \<lparr>bd_name = Some (py ''auth-service'')\<rparr>,
          buildNumber = Some (py ''20251106.1'')\<rparr>])),
      updates_api = (\<lambda>i. Inl URLError)\<rparr>"

text \<open>
  Revision histories of three work items: the fetch for id 2 raises, the histories of
  ids 1 and 3 name one person each, beside a build service and an anonymous revision.
\<close>

definition revision :: "string \<Rightarrow> json" where
  "revision display_name =
     JObj [(py ''id'', JInt 1),
           (py ''revisedBy'', JObj [(py ''displayName'', JStr (py display_name))])]"

definition history_remote :: remote where
  "history_remote =
     \<lparr>classic_releases_api = (\<lambda>tag. Inl HTTPError),
      builds_api = (\<lambda>tag. Inl URLError),
      updates_api = (\<lambda>i.
        if i = 1 then Inr (JObj [(py ''count'', JInt 2), (py ''value'',
          JArr [revision ''Alice'', revision ''Project Collection Build Service (org)''])])
        else if i = 3 then Inr (JObj [(py ''count'', JInt 2), (py ''value'',
          JArr [revision ''Bob'', JObj [(py ''id'', JInt 2)]])])
        else Inl HTTPError)\<rparr>"

text \<open>
  Two histories that name two persons each; in the first, the revision between them
  has \<open>null\<close> for \<open>revisedBy\<close>. Every other document has \<open>null\<close> for \<open>value\<close>.
\<close>

definition broken_history_remote :: remote where
  "broken_history_remote =
     \<lparr>classic_releases_api = (\<lambda>tag. Inl HTTPError),
      builds_api = (\<lambda>tag. Inl URLError),
      updates_api = (\<lambda>i.
        if i = 1 then Inr (JObj [(py ''value'',
          JArr [revision ''Alice'', JObj [(py ''revisedBy'', JNull)], revision ''Carol''])])
        else if i = 2 then Inr (JObj [(py ''value'',
          JArr [revision ''Bob'', revision ''Dave''])])
        else Inr (JObj [(py ''value'', JNull)]))\<rparr>"

text \<open>
  A parser that accepts two timestamps, and the releases of the test fixtures; a
  release as the build tier makes it.
\<close>

definition sample_fromisoformat :: "pystr \<Rightarrow> py_exception + datetime" where
  "sample_fromisoformat s =
     (if s = py ''2025-11-06T11:39:14.667+00:00'' \<or> s = py ''2025-11-06T12:00:00.000+00:00''
      then Inr \<lparr>dt_year = 2025, dt_month = November, dt_day = 6\<rparr>
      else Inl ValueError)"

definition sample_releases :: "Release list" where
  "sample_releases =
     [\<lparr>microservice = py ''auth-service'', version = py ''v1.2.3'',
       prod_deploy_time = Some (py ''2025-11-06T11:39:14.667Z''),
       release_id = py ''123'', definition_id = py ''456''\<rparr>,
      \<lparr>microservice = py ''api-gateway'', version = py ''v2.0.1'',
       prod_deploy_time = Some (py ''2025-11-06T12:00:00.000Z''),
       release_id = py ''124'', definition_id = py ''457''\<rparr>]"

definition build_releases :: "Release list" where
  "build_releases =
     [\<lparr>microservice = py ''auth-service'', version = py ''20251106.1'',
       prod_deploy_time = None, release_id = [], definition_id = []\<rparr>]"

text \<open>Notes of whitespace and markup only: a space, a break, a newline and an empty paragraph.\<close>

definition blank_notes :: "markup_token list" where
  "blank_notes = [Whitespace 32, Tag (py ''br''), Whitespace 10, Tag (py ''p''), Tag (py ''/p'')]"

text \<open>Work items of two known and two other types, one of them with notes; a generator.\<close>

definition mixed_items :: "WorkItem list" where
  "mixed_items =
     [\<lparr>item_id = 7, title = py ''Update docs'', item_type = py ''Task'', state = py ''Done'',
       iteration_path = py ''Sprint 2'', item_notes = None\<rparr>,
      \<lparr>item_id = 2, title = py ''Zap'', item_type = py ''Zeta'', state = py ''Done'',
       iteration_path = py ''N/A'', item_notes = None\<rparr>,
      \<lparr>item_id = 5, title = py ''Fix login'', item_type = py ''Bug'', state = py ''Done'',
       iteration_path = py ''Sprint 1'', item_notes = Some (py ''<ul><li>Restart</li></ul>'')\<rparr>,
      \<lparr>item_id = 1, title = py ''Audit'', item_type = py ''Alpha'', state = py ''Done'',
       iteration_path = py ''Sprint 1'', item_notes = None\<rparr>,
      \<lparr>item_id = 3, title = py ''Fix logout'', item_type = py ''Bug'', state = py ''Done'',
       iteration_path = py ''Sprint 1'', item_notes = None\<rparr>]"

definition sample_generator :: MarkdownGenerator where
  "sample_generator = \<lparr>organization_url = py ''https://dev.azure.com/testorg'', project = py ''TestProject''\<rparr>"

text \<open>The releases of the fixtures and one more, whose timestamp is the latest and is not accepted.\<close>

definition late_releases :: "Release list" where
  "late_releases =
     sample_releases @
     [\<lparr>microservice = py ''billing'', version = py ''v3.0.0'',
       prod_deploy_time = Some (py ''2025-13-01T00:00:00Z''),
       release_id = py ''125'', definition_id = py ''458''\<rparr>]"

text \<open>One work item without notes.\<close>

definition plain_items :: "WorkItem list" where
  "plain_items =
     [\<lparr>item_id = 1, title = py ''Fix login bug'', item_type = py ''Bug'', state = py ''Done'',
       iteration_path = py ''Sprint 1'', item_notes = None\<rparr>]"

text \<open>Two bugs whose order by title is the reverse of their order by id.\<close>

definition title_order_items :: "WorkItem list" where
  "title_order_items =
     [\<lparr>item_id = 2, title = py ''Alpha'', item_type = py ''Bug'', state = py ''Done'',
       iteration_path = py ''Sprint 1'', item_notes = None\<rparr>,
      \<lparr>item_id = 1, title = py ''Beta'', item_type = py ''Bug'', state = py ''Done'',
       iteration_path = py ''Sprint 1'', item_notes = None\<rparr>]"

section \<open>Properties of the string functions\<close>

lemma strip_Nil_iff: "strip s = [] \<longleftrightarrow> (\<forall>c\<in>set s. isspace c)"
proof
  assume "strip s = []"
  then have "dropWhile isspace (rev (dropWhile isspace s)) = []"
    by (simp add: strip_def)
  then have "\<forall>c\<in>set (dropWhile isspace s). isspace c"
    by (simp only: dropWhile_eq_Nil_conv set_rev)
  then have "dropWhile isspace s = []"
    using hd_dropWhile [of isspace s] by (cases "dropWhile isspace s") auto
  then show "\<forall>c\<in>set s. isspace c"
    by (simp only: dropWhile_eq_Nil_conv)
next
  assume "\<forall>c\<in>set s. isspace c"
  then have "dropWhile isspace s = []"
    by (simp only: dropWhile_eq_Nil_conv)
  then show "strip s = []"
    by (simp add: strip_def del: dropWhile_eq_Nil_conv)
qed

lemma dropWhile_rev_decomp:
  "\<exists>t. xs = rev (dropWhile P (rev xs)) @ t \<and> (\<forall>c\<in>set t. P c)"
proof -
  have "rev xs = takeWhile P (rev xs) @ dropWhile P (rev xs)"
    by simp
  then have "xs = rev (dropWhile P (rev xs)) @ rev (takeWhile P (rev xs))"
    by (metis rev_append rev_rev_ident)
  moreover have "\<forall>c\<in>set (rev (takeWhile P (rev xs))). P c"
    by (auto dest: set_takeWhileD)
  ultimately show ?thesis by blast
qed

lemma strip_decomp:
  "\<exists>l t. s = l @ strip s @ t \<and> (\<forall>c\<in>set l. isspace c) \<and> (\<forall>c\<in>set t. isspace c)"
proof -
  obtain t where t: "dropWhile isspace s = strip s @ t" "\<forall>c\<in>set t. isspace c"
    using dropWhile_rev_decomp [of "dropWhile isspace s" isspace]
    by (auto simp: strip_def)
  have "s = takeWhile isspace s @ dropWhile isspace s"
    by simp
  then have "s = takeWhile isspace s @ strip s @ t"
    using t(1) by simp
  moreover have "\<forall>c\<in>set (takeWhile isspace s). isspace c"
    by (auto dest: set_takeWhileD)
  ultimately show ?thesis using t(2) by blast
qed

lemma strip_hd: "strip s \<noteq> [] \<Longrightarrow> \<not> isspace (hd (strip s))"
proof -
  assume ne: "strip s \<noteq> []"
  let ?d = "dropWhile isspace s"
  have "?d = [] \<Longrightarrow> strip s = []"
    by (simp add: strip_def del: dropWhile_eq_Nil_conv)
  with ne have d: "?d \<noteq> []"
    by blast
  then have h: "\<not> isspace (hd ?d)"
    by (rule hd_dropWhile)
  obtain t where t: "?d = strip s @ t"
    using dropWhile_rev_decomp [of ?d isspace] by (auto simp: strip_def)
  from ne t have "hd ?d = hd (strip s)"
    by (metis hd_append2)
  with h show ?thesis by simp
qed

lemma strip_last: "strip s \<noteq> [] \<Longrightarrow> \<not> isspace (last (strip s))"
proof -
  assume ne: "strip s \<noteq> []"
  let ?r = "dropWhile isspace (rev (dropWhile isspace s))"
  from ne have r: "?r \<noteq> []"
    by (simp add: strip_def)
  then have "\<not> isspace (hd ?r)"
    by (rule hd_dropWhile)
  moreover have "last (strip s) = hd ?r"
    using r by (simp add: strip_def last_rev)
  ultimately show ?thesis by simp
qed

lemma strip_idem: "strip (strip s) = strip s"
proof (cases "strip s = []")
  case True
  moreover have "strip [] = []"
    by (simp add: strip_def)
  ultimately show ?thesis by simp
next
  case False
  from strip_hd [OF False] have a: "dropWhile isspace (strip s) = strip s"
    using False by (cases "strip s") auto
  from strip_last [OF False] have "dropWhile isspace (rev (strip s)) = rev (strip s)"
    using False by (cases "rev (strip s)") (auto simp: hd_rev)
  with a show ?thesis
    by (simp add: strip_def [of "strip s"])
qed

section \<open>Properties of the generator's loops\<close>

lemma fold_append_line: "fold (\<lambda>x ls. ls @ [f x]) xs acc = acc @ map f xs"
  by (induction xs arbitrary: acc) simp_all

lemma fold_append_block:
  assumes "\<And>ls x. g x ls = ls @ g x []"
  shows "fold g xs acc = acc @ concat (map (\<lambda>x. g x []) xs)"
proof (induction xs arbitrary: acc)
  case Nil
  show ?case by simp
next
  case (Cons x xs)
  have "fold g (x # xs) acc = fold g xs (g x acc)" by simp
  also have "\<dots> = g x acc @ concat (map (\<lambda>x. g x []) xs)" by (rule Cons.IH)
  also have "g x acc = acc @ g x []" by (rule assms)
  finally show ?case by simp
qed

subsection \<open>Grouping by type\<close>

lemma map_fst_group_append:
  "map fst (group_append g w) =
     (if item_type w \<in> set (map fst g) then map fst g else map fst g @ [item_type w])"
proof (cases "map_of g (item_type w)")
  case None
  then have "item_type w \<notin> set (map fst g)"
    by (simp add: map_of_eq_None_iff)
  with None show ?thesis by (simp add: group_append_def)
next
  case (Some v)
  then have "item_type w \<in> set (map fst g)"
    by (metis map_of_eq_None_iff option.distinct(1) set_map)
  moreover have "map fst (map (\<lambda>(k, v). if k = item_type w then (k, v @ [w]) else (k, v)) g) = map fst g"
    by (induction g) auto
  ultimately show ?thesis using Some by (simp add: group_append_def)
qed

lemma map_of_group_append:
  "map_of (group_append g w) t =
     (if t = item_type w then Some (dict_get (map_of g t) [] @ [w]) else map_of g t)"
proof (cases "map_of g (item_type w)")
  case None
  then show ?thesis
    by (auto simp: group_append_def dict_get_def map_add_def split: option.splits)
next
  case (Some v)
  have "map_of (map (\<lambda>(k, v). if k = item_type w then (k, v @ [w]) else (k, v)) g) t =
      (if t = item_type w then map_option (\<lambda>v. v @ [w]) (map_of g t) else map_of g t)"
    by (induction g) auto
  with Some show ?thesis
    by (auto simp: group_append_def dict_get_def)
qed

lemma group_fold_keys:
  "distinct (map fst g) \<Longrightarrow>
   distinct (map fst (fold (\<lambda>item grouped. group_append grouped item) wis g)) \<and>
   set (map fst (fold (\<lambda>item grouped. group_append grouped item) wis g)) =
     set (map fst g) \<union> item_type ` set wis"
proof (induction wis arbitrary: g)
  case Nil
  then show ?case by simp
next
  case (Cons w wis)
  have d: "distinct (map fst (group_append g w))"
    using Cons.prems by (simp add: map_fst_group_append)
  have s: "set (map fst (group_append g w)) = insert (item_type w) (set (map fst g))"
    by (auto simp: map_fst_group_append)
  from Cons.IH [OF d] s show ?case by auto
qed

lemma group_fold_map_of:
  "map_of (fold (\<lambda>item grouped. group_append grouped item) wis g) t =
     (if t \<in> item_type ` set wis
      then Some (dict_get (map_of g t) [] @ filter (\<lambda>w. item_type w = t) wis)
      else map_of g t)"
proof (induction wis arbitrary: g)
  case Nil
  then show ?case by simp
next
  case (Cons w wis)
  show ?case
    by (simp only: fold_simps Cons.IH [of "group_append g w"] map_of_group_append [of g w t])
      (auto simp: dict_get_def filter_empty_conv empty_filter_conv image_iff split: option.splits)
qed

lemma group_keys:
  "distinct (map fst (group_work_items_by_type wis))"
  "set (map fst (group_work_items_by_type wis)) = item_type ` set wis"
  using group_fold_keys [of "[]" wis] by (simp_all add: group_work_items_by_type_def)

lemma group_map_of:
  "map_of (group_work_items_by_type wis) t =
     (if t \<in> item_type ` set wis then Some (filter (\<lambda>w. item_type w = t) wis) else None)"
  using group_fold_map_of [of wis "[]" t]
  by (simp add: group_work_items_by_type_def dict_get_def)

lemma group_sorted_keys:
  "sort (map fst (group_work_items_by_type wis)) = sort (remdups (map item_type wis))"
proof -
  have "sort (map fst (group_work_items_by_type wis)) =
      sorted_list_of_set (set (map fst (group_work_items_by_type wis)))"
    using group_keys(1) [of wis] sorted_list_of_set_sort_remdups [of "map fst (group_work_items_by_type wis)"]
    by (simp only: distinct_remdups_id)
  also have "\<dots> = sorted_list_of_set (set (map item_type wis))"
    using group_keys(2) [of wis] by simp
  also have "\<dots> = sort (remdups (map item_type wis))"
    by (rule sorted_list_of_set_sort_remdups)
  finally show ?thesis .
qed


subsection \<open>The lines of the changelog\<close>

lemma concat_map_if:
  "concat (map (\<lambda>x. if P x then f x else []) xs) = concat (map f (filter P xs))"
  by (induction xs) simp_all

lemma add_work_items_for_type_lines:
  "add_work_items_for_type gen ls t items =
     ls @ [group_heading t items, []] @ map (changelog_line gen) (sort_key item_id items) @ [[]]"
  by (simp add: add_work_items_for_type_def Let_def fold_append_line)

lemma add_work_items_for_type_append:
  "add_work_items_for_type gen ls t items = ls @ add_work_items_for_type gen [] t items"
  by (simp add: add_work_items_for_type_lines)

lemma changelog_known_loop:
  "fold (\<lambda>work_type ls.
           case map_of g work_type of
             None \<Rightarrow> ls
           | Some items \<Rightarrow> add_work_items_for_type gen ls work_type items) ts ls =
   ls @ concat (map (\<lambda>t. add_work_items_for_type gen [] t (dict_get (map_of g t) []))
                  (filter (\<lambda>t. map_of g t \<noteq> None) ts))"
proof -
  let ?step = "\<lambda>work_type ls.
           case map_of g work_type of
             None \<Rightarrow> ls
           | Some items \<Rightarrow> add_work_items_for_type gen ls work_type items"
  have app: "?step x ls = ls @ ?step x []" for x ls
    using add_work_items_for_type_append [of gen ls x] by (simp split: option.splits)
  have "fold ?step ts ls = ls @ concat (map (\<lambda>x. ?step x []) ts)"
    using app by (rule fold_append_block)
  also have "(\<lambda>x. ?step x []) =
      (\<lambda>x. if map_of g x \<noteq> None
           then add_work_items_for_type gen [] x (dict_get (map_of g x) []) else [])"
    by (intro ext) (simp add: dict_get_def split: option.splits)
  finally show ?thesis
    by (simp only: concat_map_if)
qed

lemma changelog_other_loop:
  "fold (\<lambda>work_type ls.
           if work_type \<notin> set WORK_ITEM_TYPE_ORDER
           then add_work_items_for_type gen ls work_type (dict_get (map_of g work_type) [])
           else ls) ts ls =
   ls @ concat (map (\<lambda>t. add_work_items_for_type gen [] t (dict_get (map_of g t) []))
                  (filter (\<lambda>t. t \<notin> set WORK_ITEM_TYPE_ORDER) ts))"
proof -
  let ?step = "\<lambda>work_type ls.
           if work_type \<notin> set WORK_ITEM_TYPE_ORDER
           then add_work_items_for_type gen ls work_type (dict_get (map_of g work_type) [])
           else ls"
  have app: "?step x ls = ls @ ?step x []" for x ls
    using add_work_items_for_type_append [of gen ls x] by simp
  have "fold ?step ts ls = ls @ concat (map (\<lambda>x. ?step x []) ts)"
    using app by (rule fold_append_block)
  then show ?thesis
    by (simp only: concat_map_if)
qed

lemma add_changelog_section_lines:
  "add_changelog_section gen ls g =
     ls @ [py ''## '' @ [128221] @ py '' Changelog'', []] @
     concat (map (\<lambda>t. add_work_items_for_type gen [] t (dict_get (map_of g t) []))
       (filter (\<lambda>t. map_of g t \<noteq> None) WORK_ITEM_TYPE_ORDER @
        filter (\<lambda>t. t \<notin> set WORK_ITEM_TYPE_ORDER) (sort (map fst g))))"
  unfolding add_changelog_section_def Let_def changelog_known_loop changelog_other_loop
  by simp

lemma add_changelog_section_grouped:
  "add_changelog_section gen ls (group_work_items_by_type wis) =
     ls @ [py ''## '' @ [128221] @ py '' Changelog'', []] @
     concat (map (\<lambda>t. add_work_items_for_type gen [] t (filter (\<lambda>w. item_type w = t) wis))
       (filter (\<lambda>t. t \<in> item_type ` set wis) WORK_ITEM_TYPE_ORDER @
        filter (\<lambda>t. t \<notin> set WORK_ITEM_TYPE_ORDER) (sort (remdups (map item_type wis)))))"
proof -
  let ?g = "group_work_items_by_type wis"
  let ?order = "filter (\<lambda>t. t \<in> item_type ` set wis) WORK_ITEM_TYPE_ORDER @
        filter (\<lambda>t. t \<notin> set WORK_ITEM_TYPE_ORDER) (sort (remdups (map item_type wis)))"
  have known: "filter (\<lambda>t. map_of ?g t \<noteq> None) WORK_ITEM_TYPE_ORDER =
      filter (\<lambda>t. t \<in> item_type ` set wis) WORK_ITEM_TYPE_ORDER"
    by (rule filter_cong) (simp_all add: group_map_of)
  have mem: "t \<in> item_type ` set wis" if "t \<in> set ?order" for t
    using that by auto
  have blocks: "map (\<lambda>t. add_work_items_for_type gen [] t (dict_get (map_of ?g t) [])) ?order =
      map (\<lambda>t. add_work_items_for_type gen [] t (filter (\<lambda>w. item_type w = t) wis)) ?order"
  proof (rule map_cong [OF refl])
    fix t assume "t \<in> set ?order"
    then have "map_of ?g t = Some (filter (\<lambda>w. item_type w = t) wis)"
      using mem [of t] by (simp only: group_map_of if_True)
    then show "add_work_items_for_type gen [] t (dict_get (map_of ?g t) []) =
        add_work_items_for_type gen [] t (filter (\<lambda>w. item_type w = t) wis)"
      by (simp add: dict_get_def)
  qed
  have "add_changelog_section gen ls ?g =
     ls @ [py ''## '' @ [128221] @ py '' Changelog'', []] @
     concat (map (\<lambda>t. add_work_items_for_type gen [] t (dict_get (map_of ?g t) [])) ?order)"
    by (simp only: add_changelog_section_lines [of gen ls ?g] known group_sorted_keys)
  then show ?thesis
    by (simp only: blocks)
qed

lemma h3_group_heading: "prefix (py ''### '') (group_heading t items)"
  by (simp add: group_heading_def Let_def)

lemma h3_changelog_line: "\<not> prefix (py ''### '') (changelog_line gen item)"
  by (simp add: changelog_line_def Let_def)

lemma h3_block:
  "filter (prefix (py ''### '')) (add_work_items_for_type gen [] t items) = [group_heading t items]"
proof -
  have "filter (prefix (py ''### '')) (map (changelog_line gen) (sort_key item_id items)) = []"
    using h3_changelog_line by (simp add: filter_empty_conv)
  then show ?thesis
    using h3_group_heading [of t items] by (simp add: add_work_items_for_type_lines)
qed

lemma filter_concat_map:
  "filter P (concat (map f xs)) = concat (map (\<lambda>x. filter P (f x)) xs)"
  by (induction xs) simp_all

subsection \<open>The lines of the sections\<close>

lemma plain_simps:
  "plain_line []"
  "c \<noteq> 35 \<Longrightarrow> c \<noteq> 124 \<Longrightarrow> plain_line (c # l)"
  "c \<noteq> 35 \<Longrightarrow> plain_line (35 # c # l)"
  "c \<noteq> 32 \<Longrightarrow> plain_line (35 # 35 # c # l)"
  by (simp_all add: plain_line_def)

lemma filter_plain:
  "list_all plain_line B \<Longrightarrow> filter (prefix (py ''## '')) B = []"
  "list_all plain_line B \<Longrightarrow> filter (prefix (py ''|'')) B = []"
  by (induction B) (simp_all add: plain_line_def)

lemma plain_breakdown_line: "plain_line (breakdown_line t items)"
  by (simp add: breakdown_line_def plain_simps)

lemma plain_group_heading: "plain_line (group_heading t items)"
  by (simp add: group_heading_def Let_def plain_simps)

lemma plain_changelog_line: "plain_line (changelog_line gen item)"
  by (simp add: changelog_line_def Let_def plain_simps)

lemma add_breakdown_by_type_plain:
  "\<exists>B. add_breakdown_by_type ls g = ls @ B \<and> list_all plain_line B"
proof -
  let ?s1 = "\<lambda>work_type ls.
                     case map_of g work_type of
                       None \<Rightarrow> ls
                     | Some items \<Rightarrow> ls @ [breakdown_line work_type items]"
  let ?s2 = "\<lambda>work_type ls.
                     if work_type \<notin> set WORK_ITEM_TYPE_ORDER
                     then ls @ [breakdown_line work_type (dict_get (map_of g work_type) [])]
                     else ls"
  have a1: "?s1 x ls = ls @ ?s1 x []" for x ls
    by (simp split: option.splits)
  have a2: "?s2 x ls = ls @ ?s2 x []" for x ls
    by simp
  have p1: "list_all plain_line (?s1 x [])" for x
    by (simp add: plain_breakdown_line split: option.splits)
  have p2: "list_all plain_line (?s2 x [])" for x
    by (simp add: plain_breakdown_line)
  have f1: "fold ?s1 xs ls = ls @ concat (map (\<lambda>x. ?s1 x []) xs)" for xs ls
    using a1 by (rule fold_append_block)
  have f2: "fold ?s2 xs ls = ls @ concat (map (\<lambda>x. ?s2 x []) xs)" for xs ls
    using a2 by (rule fold_append_block)
  have c1: "list_all plain_line (concat (map (\<lambda>x. ?s1 x []) xs))" for xs
    using p1 by (induction xs) simp_all
  have c2: "list_all plain_line (concat (map (\<lambda>x. ?s2 x []) xs))" for xs
    using p2 by (induction xs) simp_all
  let ?B = "[py ''**Breakdown by Type:**'', []] @
      concat (map (\<lambda>x. ?s1 x []) WORK_ITEM_TYPE_ORDER) @
      concat (map (\<lambda>x. ?s2 x []) (sort (map fst g))) @ [[]]"
  have "add_breakdown_by_type ls g = ls @ ?B"
    unfolding add_breakdown_by_type_def Let_def f1 f2 by simp
  moreover have "list_all plain_line ?B"
    using c1 c2 by (simp add: plain_simps)
  ultimately show ?thesis by blast
qed


lemma add_summary_section_Inl:
  "extract_release_date f rels = Inl e \<Longrightarrow> add_summary_section f ls wis rels g = Inl e"
  by (simp add: add_summary_section_def Let_def)

lemma add_summary_section_Inr:
  assumes "extract_release_date f rels = Inr d"
  shows "\<exists>B. add_summary_section f ls wis rels g =
             Inr (ls @ [py ''## '' @ [128202] @ py '' Summary''] @ B) \<and>
           list_all plain_line B"
proof -
  let ?pre = "[[], py ''**Release Date:** '' @ d, [],
       py ''**Iteration:** '' @ extract_iterations wis, [],
       py ''**Total Work Items:** '' @ str_of_nat (length wis),
       py ''**Microservices Released:** '' @ str_of_nat (if rels \<noteq> [] then length rels else 0),
       []]"
  obtain B where B: "add_breakdown_by_type (ls @ [py ''## '' @ [128202] @ py '' Summary''] @ ?pre) g =
      (ls @ [py ''## '' @ [128202] @ py '' Summary''] @ ?pre) @ B" "list_all plain_line B"
    using add_breakdown_by_type_plain by blast
  have "add_summary_section f ls wis rels g =
      Inr (add_breakdown_by_type (ls @ [py ''## '' @ [128202] @ py '' Summary''] @ ?pre) g)"
    using assms by (simp add: add_summary_section_def Let_def)
  then have "add_summary_section f ls wis rels g =
      Inr (ls @ [py ''## '' @ [128202] @ py '' Summary''] @ (?pre @ B))"
    using B(1) by simp
  moreover have "list_all plain_line (?pre @ B)"
    using B(2) by (simp add: plain_simps)
  ultimately show ?thesis by blast
qed

lemma add_binaries_section_lines:
  "add_binaries_section gen ls rels =
     ls @ (if rels = [] then []
           else [py ''## '' @ [128230] @ py '' Binaries'', [], py ''| Microservice | Version |'',
                 py ''|--------------|---------|''] @
                map (binaries_row gen) (sort_key microservice rels) @ [[]])"
  by (simp add: add_binaries_section_def Let_def fold_append_line)

lemma add_changelog_section_plain:
  "\<exists>B. add_changelog_section gen ls g = ls @ [py ''## '' @ [128221] @ py '' Changelog''] @ B \<and>
       list_all plain_line B"
proof -
  have blk: "list_all plain_line (add_work_items_for_type gen [] t items)" for t items
    by (simp add: add_work_items_for_type_lines plain_group_heading plain_changelog_line
        plain_simps list_all_iff)
  have "list_all plain_line (concat (map (\<lambda>t. add_work_items_for_type gen [] t (h t)) ts))" for ts h
    using blk by (induction ts) simp_all
  then have "list_all plain_line ([[]] @
     concat (map (\<lambda>t. add_work_items_for_type gen [] t (dict_get (map_of g t) []))
       (filter (\<lambda>t. map_of g t \<noteq> None) WORK_ITEM_TYPE_ORDER @
        filter (\<lambda>t. t \<notin> set WORK_ITEM_TYPE_ORDER) (sort (map fst g)))))"
    by (simp add: plain_simps del: map_append)
  moreover have "add_changelog_section gen ls g =
     ls @ [py ''## '' @ [128221] @ py '' Changelog''] @ ([[]] @
     concat (map (\<lambda>t. add_work_items_for_type gen [] t (dict_get (map_of g t) []))
       (filter (\<lambda>t. map_of g t \<noteq> None) WORK_ITEM_TYPE_ORDER @
        filter (\<lambda>t. t \<notin> set WORK_ITEM_TYPE_ORDER) (sort (map fst g)))))"
    by (simp add: add_changelog_section_lines)
  ultimately show ?thesis by blast
qed

lemma add_deployment_instruction_item_plain:
  assumes "item_notes item \<noteq> None"
  shows "\<exists>B. add_deployment_instruction_item gen ls item = Inr (ls @ B) \<and> list_all plain_line B"
proof -
  from assms obtain n where n: "item_notes item = Some n" by auto
  let ?B = "[py ''- [#'' @ str_of_int (item_id item) @ py '']('' @
        build_work_item_url gen (item_id item) @ py '')''] @
      map (\<lambda>note_item. py ''  - '' @ note_item) (convert_notes_to_list_items n) @ [[]]"
  have "add_deployment_instruction_item gen ls item = Inr (ls @ ?B)"
    using n by (simp add: add_deployment_instruction_item_def Let_def fold_append_line)
  moreover have "list_all plain_line ?B"
    by (simp add: plain_simps list_all_iff)
  ultimately show ?thesis by blast
qed

lemma deployment_loop_plain:
  "\<forall>item\<in>set items. item_notes item \<noteq> None \<Longrightarrow>
   \<exists>B. deployment_loop gen items ls = Inr (ls @ B) \<and> list_all plain_line B"
proof (induction items arbitrary: ls)
  case Nil
  then show ?case by simp
next
  case (Cons item items)
  then obtain B1 where B1: "add_deployment_instruction_item gen ls item = Inr (ls @ B1)"
    "list_all plain_line B1"
    using add_deployment_instruction_item_plain [of item gen ls] by auto
  from Cons.prems have "\<forall>item\<in>set items. item_notes item \<noteq> None"
    by simp
  from Cons.IH [OF this, of "ls @ B1"]
  obtain B2 where B2: "deployment_loop gen items (ls @ B1) = Inr ((ls @ B1) @ B2)"
    "list_all plain_line B2"
    by blast
  from B1 B2 have "deployment_loop gen (item # items) ls = Inr (ls @ (B1 @ B2))"
    "list_all plain_line (B1 @ B2)"
    by simp_all
  then show ?case by blast
qed

lemma filter_items_with_notes_set:
  "set (filter_items_with_notes wis) = {w \<in> set wis. truthy (item_notes w)}"
  by (simp add: filter_items_with_notes_def Let_def)

lemma add_deployment_instructions_section_plain:
  "\<exists>B. add_deployment_instructions_section gen ls wis =
         Inr (ls @ (if \<exists>w\<in>set wis. truthy (item_notes w)
                    then [py ''## '' @ [128640] @ py '' Deployment Instructions''] @ B else [])) \<and>
       list_all plain_line B"
proof (cases "\<exists>w\<in>set wis. truthy (item_notes w)")
  case False
  then have "set (filter_items_with_notes wis) = {}"
    unfolding filter_items_with_notes_set by blast
  then have "filter_items_with_notes wis = []"
    by (simp only: set_empty)
  then have "add_deployment_instructions_section gen ls wis = Inr ls"
    by (simp add: add_deployment_instructions_section_def Let_def)
  with False have "add_deployment_instructions_section gen ls wis =
         Inr (ls @ (if \<exists>w\<in>set wis. truthy (item_notes w)
                    then [py ''## '' @ [128640] @ py '' Deployment Instructions''] @ [] else []))"
    by (simp only: if_False append_Nil2)
  moreover have "list_all plain_line []" by simp
  ultimately show ?thesis by blast
next
  case True
  then have "set (filter_items_with_notes wis) \<noteq> {}"
    unfolding filter_items_with_notes_set by blast
  then have ne: "filter_items_with_notes wis \<noteq> []"
    by (simp only: set_empty not_False_eq_True)
  have "item_notes item \<noteq> None" if "item \<in> set (filter_items_with_notes wis)" for item
  proof -
    from that have "truthy (item_notes item)"
      unfolding filter_items_with_notes_set by simp
    then show ?thesis
      by (cases "item_notes item") (simp_all add: truthy_def)
  qed
  then have "\<forall>item\<in>set (filter_items_with_notes wis). item_notes item \<noteq> None"
    by blast
  from deployment_loop_plain [OF this, of gen
      "ls @ [py ''## '' @ [128640] @ py '' Deployment Instructions'', []]"]
  obtain B where B: "deployment_loop gen (filter_items_with_notes wis)
        (ls @ [py ''## '' @ [128640] @ py '' Deployment Instructions'', []]) =
      Inr ((ls @ [py ''## '' @ [128640] @ py '' Deployment Instructions'', []]) @ B)"
    "list_all plain_line B"
    by blast
  have "add_deployment_instructions_section gen ls wis =
      Inr (ls @ [py ''## '' @ [128640] @ py '' Deployment Instructions''] @ ([] # B))"
    using ne B(1) by (simp add: add_deployment_instructions_section_def Let_def)
  with True have "add_deployment_instructions_section gen ls wis =
         Inr (ls @ (if \<exists>w\<in>set wis. truthy (item_notes w)
                    then [py ''## '' @ [128640] @ py '' Deployment Instructions''] @ ([] # B)
                    else []))"
    by (simp only: if_True)
  moreover have "list_all plain_line ([] # B)"
    using B(2) by (simp add: plain_simps)
  ultimately show ?thesis by blast
qed

lemma add_contributors_section_plain:
  "\<exists>B. add_contributors_section ls cs =
         ls @ (if cs \<noteq> {||} then [py ''## '' @ [128101] @ py '' Contributors''] @ B else []) \<and>
       list_all plain_line B"
proof (cases "cs = {||}")
  case True
  then have "add_contributors_section ls cs =
         ls @ (if cs \<noteq> {||} then [py ''## '' @ [128101] @ py '' Contributors''] @ [] else [])"
    by (simp add: add_contributors_section_def)
  moreover have "list_all plain_line []" by simp
  ultimately show ?thesis by blast
next
  case False
  let ?B = "[] # map (\<lambda>contributor. py ''- '' @ contributor) (sorted_list_of_fset cs) @ [[]]"
  have "add_contributors_section ls cs =
      ls @ (if cs \<noteq> {||} then [py ''## '' @ [128101] @ py '' Contributors''] @ ?B else [])"
    using False by (simp add: add_contributors_section_def Let_def fold_append_line)
  moreover have "list_all plain_line ?B"
    by (simp add: plain_simps list_all_iff)
  ultimately show ?thesis by blast
qed


lemma generate_lines_Inl:
  "extract_release_date f rels = Inl e \<Longrightarrow> generate_lines f gen rn wis rels cs = Inl e"
  by (simp add: generate_lines_def Let_def add_summary_section_Inl)

lemma generate_lines_Inr:
  assumes "extract_release_date f rels = Inr d"
  shows "\<exists>B1 B3 B4 B5.
     list_all plain_line B1 \<and> list_all plain_line B3 \<and> list_all plain_line B4 \<and>
     list_all plain_line B5 \<and>
     generate_lines f gen rn wis rels cs =
       Inr ([py ''# Release Notes - '' @ rn, [], py ''## '' @ [128202] @ py '' Summary''] @ B1 @
            (if rels = [] then []
             else [py ''## '' @ [128230] @ py '' Binaries'', [], py ''| Microservice | Version |'',
                   py ''|--------------|---------|''] @
                  map (binaries_row gen) (sort_key microservice rels) @ [[]]) @
            [py ''## '' @ [128221] @ py '' Changelog''] @ B3 @
            (if \<exists>w\<in>set wis. truthy (item_notes w)
             then [py ''## '' @ [128640] @ py '' Deployment Instructions''] @ B4 else []) @
            (if cs \<noteq> {||} then [py ''## '' @ [128101] @ py '' Contributors''] @ B5 else []))"
proof -
  let ?g = "group_work_items_by_type wis"
  let ?l0 = "[py ''# Release Notes - '' @ rn, []]"
  obtain B1 where B1: "add_summary_section f ?l0 wis rels ?g =
      Inr (?l0 @ [py ''## '' @ [128202] @ py '' Summary''] @ B1)" "list_all plain_line B1"
    using add_summary_section_Inr [OF assms] by blast
  define l1 where "l1 = ?l0 @ [py ''## '' @ [128202] @ py '' Summary''] @ B1"
  define l2 where "l2 = add_binaries_section gen l1 rels"
  obtain B3 where B3: "add_changelog_section gen l2 ?g =
      l2 @ [py ''## '' @ [128221] @ py '' Changelog''] @ B3" "list_all plain_line B3"
    using add_changelog_section_plain by blast
  define l3 where "l3 = l2 @ [py ''## '' @ [128221] @ py '' Changelog''] @ B3"
  obtain B4 where B4: "add_deployment_instructions_section gen l3 wis =
         Inr (l3 @ (if \<exists>w\<in>set wis. truthy (item_notes w)
                    then [py ''## '' @ [128640] @ py '' Deployment Instructions''] @ B4 else []))"
    "list_all plain_line B4"
    using add_deployment_instructions_section_plain by blast
  define l4 where "l4 = l3 @ (if \<exists>w\<in>set wis. truthy (item_notes w)
                    then [py ''## '' @ [128640] @ py '' Deployment Instructions''] @ B4 else [])"
  obtain B5 where B5: "add_contributors_section l4 cs =
         l4 @ (if cs \<noteq> {||} then [py ''## '' @ [128101] @ py '' Contributors''] @ B5 else [])"
    "list_all plain_line B5"
    using add_contributors_section_plain by blast
  have "generate_lines f gen rn wis rels cs =
      Inr (l4 @ (if cs \<noteq> {||} then [py ''## '' @ [128101] @ py '' Contributors''] @ B5 else []))"
    using B1(1) B3(1) B4(1) B5(1)
    unfolding generate_lines_def Let_def l1_def [symmetric] l2_def [symmetric] l3_def [symmetric]
      l4_def [symmetric]
    by (simp add: l1_def [symmetric] l2_def [symmetric] l3_def [symmetric] l4_def [symmetric])
  then have "generate_lines f gen rn wis rels cs =
       Inr ([py ''# Release Notes - '' @ rn, [], py ''## '' @ [128202] @ py '' Summary''] @ B1 @
            (if rels = [] then []
             else [py ''## '' @ [128230] @ py '' Binaries'', [], py ''| Microservice | Version |'',
                   py ''|--------------|---------|''] @
                  map (binaries_row gen) (sort_key microservice rels) @ [[]]) @
            [py ''## '' @ [128221] @ py '' Changelog''] @ B3 @
            (if \<exists>w\<in>set wis. truthy (item_notes w)
             then [py ''## '' @ [128640] @ py '' Deployment Instructions''] @ B4 else []) @
            (if cs \<noteq> {||} then [py ''## '' @ [128101] @ py '' Contributors''] @ B5 else []))"
    unfolding l4_def l3_def l2_def l1_def add_binaries_section_lines by simp
  with B1(2) B3(2) B4(2) B5(2) show ?thesis by blast
qed

subsection \<open>The release date\<close>

lemma fold_keep_first_max:
  "fold (\<lambda>y m. if m < y then y else m) xs (x :: pystr) = Max (set (x # xs))"
proof -
  have "(\<lambda>y m :: pystr. if m < y then y else m) = max"
    by (intro ext) (auto simp: max_def)
  moreover have "fold max xs x = Max (set (x # xs))"
    by (rule Max.set_eq_fold [symmetric])
  ultimately show ?thesis
    by (simp only:)
qed

lemma py_max_Max: "xs \<noteq> [] \<Longrightarrow> py_max xs = Inr (Max (set xs))"
  by (cases xs) (simp_all add: py_max_def fold_keep_first_max del: set_simps)

lemma strftime_has_space: "32 \<in> set (strftime_B_d_Y d)"
  by (simp add: strftime_B_d_Y_def)

lemma strftime_not_Unreleased: "strftime_B_d_Y d \<noteq> py ''Unreleased''"
proof
  assume "strftime_B_d_Y d = py ''Unreleased''"
  then have "32 \<in> set (py ''Unreleased'')"
    using strftime_has_space [of d] by simp
  then show False by simp
qed

lemma set_prod_times:
  "set (List.map_filter (\<lambda>r. if truthy (prod_deploy_time r) then prod_deploy_time r else None) rs) =
     {t. t \<noteq> [] \<and> (\<exists>r\<in>set rs. prod_deploy_time r = Some t)}"
  by (induction rs) (auto simp: List.map_filter_simps truthy_def split: option.splits)

lemma extract_release_date_cases:
  "extract_release_date fromisoformat rs =
     (if {t. t \<noteq> [] \<and> (\<exists>r\<in>set rs. prod_deploy_time r = Some t)} = {} then Inr (py ''Unreleased'')
      else case fromisoformat (str_replace_char 90 (py ''+00:00'')
                  (Max {t. t \<noteq> [] \<and> (\<exists>r\<in>set rs. prod_deploy_time r = Some t)})) of
             Inl e \<Rightarrow> Inl e
           | Inr d \<Rightarrow> Inr (strftime_B_d_Y d))"
proof -
  let ?pt = "List.map_filter (\<lambda>r. if truthy (prod_deploy_time r) then prod_deploy_time r else None) rs"
  let ?T = "{t. t \<noteq> [] \<and> (\<exists>r\<in>set rs. prod_deploy_time r = Some t)}"
  have s: "set ?pt = ?T" by (rule set_prod_times)
  show ?thesis
  proof (cases "?pt = []")
    case True
    then have "?T = {}" using s by (metis set_empty)
    with True show ?thesis
      by (simp add: extract_release_date_def Let_def)
  next
    case False
    then have ne: "?T \<noteq> {}" using s by (metis set_empty)
    from False have "rs \<noteq> []" by (auto simp: List.map_filter_def)
    moreover from False have "py_max ?pt = Inr (Max ?T)"
      using py_max_Max [of ?pt] s by simp
    ultimately show ?thesis using False ne
      by (auto simp: extract_release_date_def Let_def)
  qed
qed

lemma str_replace_char_trailing:
  "old \<notin> set u \<Longrightarrow> str_replace_char old new u = u"
  "old \<notin> set u \<Longrightarrow> str_replace_char old new (u @ [old]) = u @ new"
proof -
  assume u: "old \<notin> set u"
  then have "concat (map (\<lambda>c. if c = old then new else [c]) u) = u"
    by (induction u) auto
  then show "str_replace_char old new u = u" "str_replace_char old new (u @ [old]) = u @ new"
    by (simp_all add: str_replace_char_def)
qed

lemma generate_cases:
  "generate f gen rn wis rels cs =
     (case generate_lines f gen rn wis rels cs of
        Inl e \<Rightarrow> Inl e
      | Inr lines \<Rightarrow> Inr (join [10] lines))"
  by (simp add: generate_def)

lemma extract_release_date_none:
  "{t. t \<noteq> [] \<and> (\<exists>r\<in>set rs. prod_deploy_time r = Some t)} = {} \<Longrightarrow>
   extract_release_date f rs = Inr (py ''Unreleased'')"
  unfolding extract_release_date_cases [of f rs] by (rule if_P)

lemma extract_release_date_some:
  "{t. t \<noteq> [] \<and> (\<exists>r\<in>set rs. prod_deploy_time r = Some t)} \<noteq> {} \<Longrightarrow>
   extract_release_date f rs =
     (case f (str_replace_char 90 (py ''+00:00'')
                (Max {t. t \<noteq> [] \<and> (\<exists>r\<in>set rs. prod_deploy_time r = Some t)})) of
        Inl e \<Rightarrow> Inl e
      | Inr d \<Rightarrow> Inr (strftime_B_d_Y d))"
  unfolding extract_release_date_cases [of f rs] by (rule if_not_P)

subsection \<open>Table lines, notes and the release date of valid input\<close>

lemma binaries_row_bar: "prefix (py ''|'') (binaries_row gen r)" "\<not> prefix (py ''## '') (binaries_row gen r)"
  by (simp_all add: binaries_row_def Let_def)

lemma filter_binaries_rows:
  "filter (prefix (py ''|'')) (map (binaries_row gen) rs) = map (binaries_row gen) rs"
  "filter (prefix (py ''## '')) (map (binaries_row gen) rs) = []"
  using binaries_row_bar by (induction rs) simp_all

lemma truthy_iff_present:
  "\<forall>w\<in>set wis. item_notes w \<noteq> Some [] \<Longrightarrow>
   (\<exists>w\<in>set wis. truthy (item_notes w)) \<longleftrightarrow> (\<exists>w\<in>set wis. item_notes w \<noteq> None)"
proof -
  assume wf: "\<forall>w\<in>set wis. item_notes w \<noteq> Some []"
  have "truthy (item_notes w) \<longleftrightarrow> item_notes w \<noteq> None" if "w \<in> set wis" for w
    using wf that by (cases "item_notes w") (auto simp: truthy_def)
  then show ?thesis by blast
qed

lemma extract_release_date_total:
  assumes "\<forall>r\<in>set rs. \<forall>t. prod_deploy_time r = Some t \<and> t \<noteq> [] \<longrightarrow>
        (\<exists>d. f (str_replace_char 90 (py ''+00:00'') t) = Inr d)"
  shows "\<exists>date. extract_release_date f rs = Inr date"
proof (cases "{t. t \<noteq> [] \<and> (\<exists>r\<in>set rs. prod_deploy_time r = Some t)} = {}")
  case True
  then have "extract_release_date f rs = Inr (py ''Unreleased'')"
    by (rule extract_release_date_none)
  then show ?thesis by (rule exI)
next
  case False
  let ?T = "{t. t \<noteq> [] \<and> (\<exists>r\<in>set rs. prod_deploy_time r = Some t)}"
  have "finite ?T"
    by (subst set_prod_times [of rs, symmetric]) (rule List.finite_set)
  then have "Max ?T \<in> ?T" using False by (rule Max_in)
  with assms obtain d where "f (str_replace_char 90 (py ''+00:00'') (Max ?T)) = Inr d"
    by blast
  with extract_release_date_some [OF False, of f]
  have "extract_release_date f rs = Inr (strftime_B_d_Y d)"
    by simp
  then show ?thesis by (rule exI)
qed

section \<open>Notes normalization\<close>

text \<open>
  C7. Normalizing notes twice is normalizing them once. An absent value, the empty
  string and every string of whitespace only normalize to absent. Any other string
  \<open>s\<close> normalizes to its middle part \<open>m\<close>: \<open>s\<close> is \<open>l @ m @ t\<close> with \<open>l\<close> and \<open>t\<close>
  whitespace only, \<open>m\<close> starts and ends with a character that is not whitespace, and
  \<open>m\<close> is returned as it stands in \<open>s\<close>, markup included.
\<close>

theorem parse_notes_field_normalizes:
  "parse_notes_field (parse_notes_field raw) = parse_notes_field raw \<and>
   parse_notes_field None = None \<and>
   ((\<forall>c\<in>set s. isspace c) \<longrightarrow> parse_notes_field (Some s) = None) \<and>
   (\<not> (\<forall>c\<in>set s. isspace c) \<longrightarrow>
      parse_notes_field (Some s) = Some (strip s) \<and>
      (\<exists>l m t. s = l @ m @ t \<and> (\<forall>c\<in>set l. isspace c) \<and> (\<forall>c\<in>set t. isspace c) \<and>
         m \<noteq> [] \<and> \<not> isspace (hd m) \<and> \<not> isspace (last m) \<and>
         parse_notes_field (Some s) = Some m))"
proof -
  have idem: "parse_notes_field (parse_notes_field raw) = parse_notes_field raw"
    by (auto simp: parse_notes_field_def Let_def strip_idem split: option.splits)
  have blank: "(\<forall>c\<in>set s. isspace c) \<longrightarrow> parse_notes_field (Some s) = None"
    using strip_Nil_iff [of s] by (simp add: parse_notes_field_def Let_def)
  have other: "parse_notes_field (Some s) = Some (strip s) \<and>
      (\<exists>l m t. s = l @ m @ t \<and> (\<forall>c\<in>set l. isspace c) \<and> (\<forall>c\<in>set t. isspace c) \<and>
         m \<noteq> [] \<and> \<not> isspace (hd m) \<and> \<not> isspace (last m) \<and>
         parse_notes_field (Some s) = Some m)"
    if ns: "\<not> (\<forall>c\<in>set s. isspace c)"
  proof -
    from ns have ne: "strip s \<noteq> []"
      by (simp add: strip_Nil_iff)
    from ns have "s \<noteq> []" by auto
    with ne have eq: "parse_notes_field (Some s) = Some (strip s)"
      by (simp add: parse_notes_field_def Let_def)
    obtain l t where "s = l @ strip s @ t" "\<forall>c\<in>set l. isspace c" "\<forall>c\<in>set t. isspace c"
      using strip_decomp [of s] by blast
    with ne eq strip_hd [OF ne] strip_last [OF ne] show ?thesis
      by blast
  qed
  have absent: "parse_notes_field None = None"
    by (simp add: parse_notes_field_def)
  from idem absent blank other show ?thesis
    by blast
qed

theorem parse_notes_field_normalizes_witness:
  "parse_notes_field (Some (py ''  '')) = None \<and>
   parse_notes_field (Some (py '' <b>x</b>  '')) = Some (py ''<b>x</b>'') \<and>
   parse_notes_field (parse_notes_field (Some (py '' <b>x</b>  ''))) = Some (py ''<b>x</b>'')"
proof -
  have ws: "\<forall>c\<in>set (py ''  ''). isspace c"
    by (simp add: isspace_def)
  have nws: "\<not> (\<forall>c\<in>set (py '' <b>x</b>  ''). isspace c)"
    by (simp add: isspace_def)
  have st: "strip (py '' <b>x</b>  '') = py ''<b>x</b>''"
    by (simp add: strip_def isspace_def)
  from parse_notes_field_normalizes [of "Some (py ''  '')" "py ''  ''"] ws
  have a: "parse_notes_field (Some (py ''  '')) = None"
    by blast
  from parse_notes_field_normalizes [of "Some (py '' <b>x</b>  '')" "py '' <b>x</b>  ''"] nws
  have b: "parse_notes_field (Some (py '' <b>x</b>  '')) = Some (strip (py '' <b>x</b>  ''))"
    and c: "parse_notes_field (parse_notes_field (Some (py '' <b>x</b>  ''))) =
            parse_notes_field (Some (py '' <b>x</b>  ''))"
    by blast+
  from a b c st show ?thesis
    by simp
qed

section \<open>Production deployment timestamp\<close>

lemma prod_time_loop_no_steps:
  "(\<forall>e\<in>set envs. env_name e = Some pe \<longrightarrow> dict_get (deploySteps e) [] = []) \<Longrightarrow>
   prod_time_loop pe envs = None"
  by (induction envs) (auto simp: Let_def)

lemma prod_time_loop_unique:
  "e \<in> set envs \<Longrightarrow> env_name e = Some pe \<Longrightarrow>
   (\<forall>e'\<in>set envs. env_name e' = Some pe \<longrightarrow> e' = e) \<Longrightarrow>
   prod_time_loop pe envs =
     (if dict_get (deploySteps e) [] = [] then None
      else lastModifiedOn (last (dict_get (deploySteps e) [])))"
proof (induction envs)
  case Nil
  then show ?case by simp
next
  case (Cons env envs)
  have uniq: "\<forall>e'\<in>set envs. env_name e' = Some pe \<longrightarrow> e' = e"
    using Cons.prems(3) by simp
  show ?case
  proof (cases "env_name env = Some pe")
    case True
    have eq: "env = e"
      using Cons.prems(3) True by simp
    show ?thesis
    proof (cases "dict_get (deploySteps e) [] = []")
      case no_steps: True
      have "\<forall>e'\<in>set envs. env_name e' = Some pe \<longrightarrow> dict_get (deploySteps e') [] = []"
        using uniq no_steps by blast
      then have "prod_time_loop pe envs = None"
        by (rule prod_time_loop_no_steps)
      then show ?thesis
        unfolding eq using no_steps Cons.prems(2) by (simp add: Let_def)
    next
      case False
      then show ?thesis
        unfolding eq using Cons.prems(2) by (simp add: Let_def)
    qed
  next
    case False
    with Cons.prems(1,2) have mem: "e \<in> set envs" by auto
    have "prod_time_loop pe (env # envs) = prod_time_loop pe envs"
      using False by simp
    also have "\<dots> = (if dict_get (deploySteps e) [] = [] then None
      else lastModifiedOn (last (dict_get (deploySteps e) [])))"
      using mem Cons.prems(2) uniq by (rule Cons.IH)
    finally show ?thesis .
  qed
qed

lemma prod_time_loop_first:
  "env_name e = Some pe \<Longrightarrow> dict_get (deploySteps e) [] \<noteq> [] \<Longrightarrow>
   (\<forall>e'\<in>set pre. env_name e' = Some pe \<longrightarrow> dict_get (deploySteps e') [] = []) \<Longrightarrow>
   prod_time_loop pe (pre @ e # post) = lastModifiedOn (last (dict_get (deploySteps e) []))"
  by (induction pre) (simp_all add: Let_def)

text \<open>
  C8. The production deployment timestamp of a classic release record. If no
  environment carries the configured production name, the timestamp is absent. If
  \<open>e\<close> is the environment of that name (no other environment of the record carries
  the name), the timestamp is absent when \<open>e\<close> has no deploy steps, and otherwise is
  the \<open>lastModifiedOn\<close> of the last deploy step of \<open>e\<close>. Where several environments
  carry the name, the first of them that has deploy steps decides, and the timestamp
  is absent when none of them has any.
\<close>

theorem extract_prod_deployment_time_spec:
  "(\<not> (\<exists>e\<in>set (dict_get (environments rdata) []). env_name e = Some pe) \<longrightarrow>
      extract_prod_deployment_time pe rdata = None) \<and>
   (\<forall>e\<in>set (dict_get (environments rdata) []).
      env_name e = Some pe \<and>
      (\<forall>e'\<in>set (dict_get (environments rdata) []). env_name e' = Some pe \<longrightarrow> e' = e) \<longrightarrow>
      extract_prod_deployment_time pe rdata =
        (if dict_get (deploySteps e) [] = [] then None
         else lastModifiedOn (last (dict_get (deploySteps e) [])))) \<and>
   ((\<forall>e\<in>set (dict_get (environments rdata) []).
       env_name e = Some pe \<longrightarrow> dict_get (deploySteps e) [] = []) \<longrightarrow>
      extract_prod_deployment_time pe rdata = None) \<and>
   (\<forall>pre e post.
      dict_get (environments rdata) [] = pre @ e # post \<and> env_name e = Some pe \<and>
      dict_get (deploySteps e) [] \<noteq> [] \<and>
      (\<forall>e'\<in>set pre. env_name e' = Some pe \<longrightarrow> dict_get (deploySteps e') [] = []) \<longrightarrow>
      extract_prod_deployment_time pe rdata =
        lastModifiedOn (last (dict_get (deploySteps e) [])))"
proof (intro conjI impI ballI allI)
  assume "\<not> (\<exists>e\<in>set (dict_get (environments rdata) []). env_name e = Some pe)"
  then show "extract_prod_deployment_time pe rdata = None"
    unfolding extract_prod_deployment_time_def
    by (intro prod_time_loop_no_steps) blast
next
  fix e
  assume "e \<in> set (dict_get (environments rdata) [])"
    and "env_name e = Some pe \<and>
      (\<forall>e'\<in>set (dict_get (environments rdata) []). env_name e' = Some pe \<longrightarrow> e' = e)"
  then show "extract_prod_deployment_time pe rdata =
        (if dict_get (deploySteps e) [] = [] then None
         else lastModifiedOn (last (dict_get (deploySteps e) [])))"
    unfolding extract_prod_deployment_time_def
    using prod_time_loop_unique [of e "dict_get (environments rdata) []" pe] by blast
next
  assume "\<forall>e\<in>set (dict_get (environments rdata) []).
       env_name e = Some pe \<longrightarrow> dict_get (deploySteps e) [] = []"
  then show "extract_prod_deployment_time pe rdata = None"
    unfolding extract_prod_deployment_time_def by (rule prod_time_loop_no_steps)
next
  fix pre e post
  assume "dict_get (environments rdata) [] = pre @ e # post \<and> env_name e = Some pe \<and>
      dict_get (deploySteps e) [] \<noteq> [] \<and>
      (\<forall>e'\<in>set pre. env_name e' = Some pe \<longrightarrow> dict_get (deploySteps e') [] = [])"
  then show "extract_prod_deployment_time pe rdata =
        lastModifiedOn (last (dict_get (deploySteps e) []))"
    unfolding extract_prod_deployment_time_def
    using prod_time_loop_first [of e pe pre post] by simp
qed

theorem extract_prod_deployment_time_spec_witness:
  "extract_prod_deployment_time (py ''PROD'') ex_release = Some (py ''2025-11-06T11:39:14.667Z'') \<and>
   extract_prod_deployment_time (py ''STAGE'') ex_release = None"
proof -
  let ?prod = "\<lparr>env_name = Some (py ''PROD''),
          deploySteps = Some [\<lparr>lastModifiedOn = Some (py ''2025-11-06T10:00:00.000Z'')\<rparr>,
                             \<lparr>lastModifiedOn = Some (py ''2025-11-06T11:39:14.667Z'')\<rparr>]\<rparr>"
  have envs: "dict_get (environments ex_release) [] =
      [\<lparr>env_name = Some (py ''DEV''),
          deploySteps = Some [\<lparr>lastModifiedOn = Some (py ''2025-11-05T11:39:14.667Z'')\<rparr>]\<rparr>, ?prod]"
    by (simp add: ex_release_def dict_get_def)
  have mem: "?prod \<in> set (dict_get (environments ex_release) [])"
    unfolding envs by simp
  have only: "env_name ?prod = Some (py ''PROD'') \<and>
      (\<forall>e'\<in>set (dict_get (environments ex_release) []). env_name e' = Some (py ''PROD'') \<longrightarrow> e' = ?prod)"
    unfolding envs by simp
  have none: "\<not> (\<exists>e\<in>set (dict_get (environments ex_release) []). env_name e = Some (py ''STAGE''))"
    unfolding envs by simp
  from extract_prod_deployment_time_spec [of ex_release "py ''PROD''"] mem only
  have "extract_prod_deployment_time (py ''PROD'') ex_release =
        (if dict_get (deploySteps ?prod) [] = [] then None
         else lastModifiedOn (last (dict_get (deploySteps ?prod) [])))"
    by blast
  then have a: "extract_prod_deployment_time (py ''PROD'') ex_release = Some (py ''2025-11-06T11:39:14.667Z'')"
    by (simp add: dict_get_def)
  from extract_prod_deployment_time_spec [of ex_release "py ''STAGE''"] none
  have b: "extract_prod_deployment_time (py ''STAGE'') ex_release = None"
    by blast
  from a b show ?thesis by simp
qed

section \<open>Two-tier release fetch\<close>

lemma get_releases_from_builds_cases:
  "get_releases_from_builds w tag =
     (case builds_api w tag of
        Inl e \<Rightarrow> Inr []
      | Inr result \<Rightarrow> Inr (map build_release (dict_get result [])))"
  by (simp add: get_releases_from_builds_def builds_body_def try_except_def split: sum.splits)

lemma get_releases_from_builds_total: "\<exists>rs. get_releases_from_builds w tag = Inr rs"
  by (simp add: get_releases_from_builds_cases split: sum.splits)

text \<open>
  C2. If the classic-release tier raises, \<open>get_releases\<close> returns what the build
  tier returns. A build tier whose request succeeds returns one release per build,
  each with an absent timestamp and the build number as its version (\<open>Unknown\<close>
  when the build has none). A build tier whose request raises returns the empty list,
  so that with both tiers raising \<open>get_releases\<close> returns the empty list. In every
  case \<open>get_releases\<close> returns a list and raises nothing.
\<close>

theorem get_releases_two_tier:
  "(get_classic_releases w pe tag = Inl e \<longrightarrow>
      get_releases w pe tag = get_releases_from_builds w tag) \<and>
   (\<forall>result. builds_api w tag = Inr result \<longrightarrow>
      get_releases_from_builds w tag = Inr (map build_release (dict_get result []))) \<and>
   (\<forall>rs. get_releases_from_builds w tag = Inr rs \<longrightarrow>
      (\<forall>r\<in>set rs. prod_deploy_time r = None)) \<and>
   prod_deploy_time (build_release b) = None \<and>
   version (build_release b) = dict_get (buildNumber b) (py ''Unknown'') \<and>
   (\<forall>e'. builds_api w tag = Inl e' \<longrightarrow> get_releases_from_builds w tag = Inr []) \<and>
   (\<forall>e'. get_classic_releases w pe tag = Inl e \<and> builds_api w tag = Inl e' \<longrightarrow>
      get_releases w pe tag = Inr []) \<and>
   (\<exists>rs. get_releases w pe tag = Inr rs)"
proof -
  have fallback: "get_releases w pe tag = get_releases_from_builds w tag"
    if "get_classic_releases w pe tag = Inl e"
    using that by (simp add: get_releases_def try_except_def)
  have ok: "get_releases_from_builds w tag = Inr (map build_release (dict_get result []))"
    if "builds_api w tag = Inr result" for result
    using that by (simp add: get_releases_from_builds_cases)
  have failed: "get_releases_from_builds w tag = Inr []" if "builds_api w tag = Inl e'" for e'
    using that by (simp add: get_releases_from_builds_cases)
  have absent: "\<forall>r\<in>set rs. prod_deploy_time r = None"
    if "get_releases_from_builds w tag = Inr rs" for rs
    using that
    by (auto simp: get_releases_from_builds_cases build_release_def split: sum.splits)
  have total: "\<exists>rs. get_releases w pe tag = Inr rs"
  proof (cases "get_classic_releases w pe tag")
    case (Inl e0)
    then have "get_releases w pe tag = get_releases_from_builds w tag"
      by (simp add: get_releases_def try_except_def)
    then show ?thesis
      using get_releases_from_builds_total [of w tag] by simp
  next
    case (Inr rs)
    then show ?thesis
      by (simp add: get_releases_def try_except_def)
  qed
  have fields: "prod_deploy_time (build_release b) = None"
    "version (build_release b) = dict_get (buildNumber b) (py ''Unknown'')"
    by (simp_all add: build_release_def)
  from fallback ok failed absent total fields show ?thesis
    by (intro conjI allI impI) (blast, blast, blast, assumption, assumption, blast, metis, blast)
qed

theorem get_releases_two_tier_witness:
  "get_releases failing_remote (py ''PROD'') (py ''2025.006'') = Inr [] \<and>
   get_releases builds_only_remote (py ''PROD'') (py ''2025.006'') =
     Inr [\<lparr>microservice = py ''auth-service'', version = py ''20251106.1'',
          prod_deploy_time = None, release_id = [], definition_id = []\<rparr>]"
proof -
  have c1: "get_classic_releases failing_remote (py ''PROD'') (py ''2025.006'') = Inl HTTPError"
    by (simp add: get_classic_releases_def failing_remote_def)
  have b1: "builds_api failing_remote (py ''2025.006'') = Inl URLError"
    by (simp add: failing_remote_def)
  from get_releases_two_tier [of failing_remote "py ''PROD''" "py ''2025.006''" HTTPError] c1 b1
  have a: "get_releases failing_remote (py ''PROD'') (py ''2025.006'') = Inr []"
    by blast
  have c2: "get_classic_releases builds_only_remote (py ''PROD'') (py ''2025.006'') = Inl HTTPError"
    by (simp add: get_classic_releases_def builds_only_remote_def)
  have b2: "builds_api builds_only_remote (py ''2025.006'') = Inr (Some
        [\<lparr>build_def = Some \<lparr>bd_name = Some (py ''auth-service'')\<rparr>,
          buildNumber = Some (py ''20251106.1'')\<rparr>])"
    by (simp add: builds_only_remote_def)
  from get_releases_two_tier [of builds_only_remote "py ''PROD''" "py ''2025.006''" HTTPError] c2 b2
  have "get_releases builds_only_remote (py ''PROD'') (py ''2025.006'') =
      Inr (map build_release (dict_get (Some
        [\<lparr>build_def = Some \<lparr>bd_name = Some (py ''auth-service'')\<rparr>,
          buildNumber = Some (py ''20251106.1'')\<rparr>]) []))"
    by metis
  then have b: "get_releases builds_only_remote (py ''PROD'') (py ''2025.006'') =
     Inr [\<lparr>microservice = py ''auth-service'', version = py ''20251106.1'',
          prod_deploy_time = None, release_id = [], definition_id = []\<rparr>]"
    by (simp add: build_release_def dict_get_def)
  from a b show ?thesis by simp
qed

section \<open>Contributor aggregation\<close>

lemma any_pattern_in_str:
  "any_pattern_in patterns (JStr n) = Inr (list_ex (\<lambda>pattern. py_in pattern n) patterns)"
  by (induction patterns) simp_all

lemma any_pattern_in_returns:
  "any_pattern_in (pattern # patterns) v = Inr b \<Longrightarrow> (\<exists>n. v = JStr n) \<or> \<not> hashable v"
  by (cases v) simp_all

lemma is_system_account_returns:
  "is_system_account v = Inr b \<Longrightarrow> (\<exists>n. v = JStr n) \<or> \<not> hashable v"
  unfolding is_system_account_def SYSTEM_ACCOUNT_PATTERNS_def
  by (rule any_pattern_in_returns)

lemma extract_contributor_cases:
  assumes "extract_contributor upd = Inr c"
  shows "c = JNull \<or> (py_bool c \<and> is_system_account c = Inr False)"
  using assms unfolding extract_contributor_def
  by (auto split: sum.splits if_splits)

lemma extract_contributor_added:
  assumes "extract_contributor upd = Inr c" and "py_bool c" and "hashable c"
  shows "\<exists>n. c = JStr n \<and> n \<noteq> []"
proof -
  from assms(1,2) have "is_system_account c = Inr False"
    using extract_contributor_cases by fastforce
  with assms(3) obtain n where "c = JStr n"
    using is_system_account_returns by blast
  with assms(2) show ?thesis by simp
qed

lemma extract_contributor_object:
  assumes "map_of items (py ''revisedBy'') = Some (JObj revised_by)"
      and "map_of revised_by (py ''displayName'') = Some (JStr n)"
  shows "extract_contributor (JObj items) =
           Inr (if n \<noteq> [] \<and> \<not> list_ex (\<lambda>pattern. py_in pattern n) SYSTEM_ACCOUNT_PATTERNS
                then JStr n else JNull)"
  using assms
  by (simp add: extract_contributor_def obj_get_def dict_get_def is_system_account_def
      any_pattern_in_str del: map_of_eq_Some_iff)

lemma extract_contributor_wf:
  assumes "wf_update upd"
  shows "\<exists>c. extract_contributor upd = Inr c \<and> (c = JNull \<or> (\<exists>n. c = JStr n \<and> n \<noteq> []))"
proof -
  from assms obtain items where upd: "upd = JObj items"
    and rb: "wf_revised_by (map_of items (py ''revisedBy''))"
    by (cases upd) simp_all
  show ?thesis
  proof (cases "map_of items (py ''revisedBy'')")
    case None
    then show ?thesis
      by (simp add: upd extract_contributor_def obj_get_def dict_get_def)
  next
    case (Some v)
    with rb obtain revised_by where v: "v = JObj revised_by"
      and dn: "wf_display_name (map_of revised_by (py ''displayName''))"
      by (cases v) simp_all
    show ?thesis
    proof (cases "map_of revised_by (py ''displayName'')")
      case None
      with Some v show ?thesis
        by (simp add: upd extract_contributor_def obj_get_def dict_get_def
            del: map_of_eq_Some_iff)
    next
      case name: (Some d)
      with dn consider "d = JNull" | n where "d = JStr n"
        by (cases d) simp_all
      then show ?thesis
      proof cases
        case 1
        with Some v name show ?thesis
          by (simp add: upd extract_contributor_def obj_get_def dict_get_def
              del: map_of_eq_Some_iff)
      next
        case 2
        with Some v name have
          "extract_contributor (JObj items) =
             Inr (if n \<noteq> [] \<and> \<not> list_ex (\<lambda>pattern. py_in pattern n) SYSTEM_ACCOUNT_PATTERNS
                  then JStr n else JNull)"
          by (intro extract_contributor_object) simp_all
        then show ?thesis by (simp add: upd)
      qed
    qed
  qed
qed

lemma passes_wf: "wf_update upd \<Longrightarrow> passes upd"
  using extract_contributor_wf [of upd] by (auto simp: passes_def)

lemma updates_loop_set:
  "fset (snd (updates_loop upds cs)) =
     fset cs \<union> {c. \<exists>upd\<in>set (takeWhile passes upds).
                     extract_contributor upd = Inr c \<and> py_bool c}"
proof (induction upds arbitrary: cs)
  case Nil
  show ?case by simp
next
  case (Cons upd upds)
  show ?case
  proof (cases "extract_contributor upd")
    case (Inl e)
    then show ?thesis by (simp add: passes_def)
  next
    case (Inr c)
    show ?thesis
    proof (cases "py_bool c")
      case False
      with Inr have "updates_loop (upd # upds) cs = updates_loop upds cs" by simp
      moreover from Inr False have "passes upd" by (simp add: passes_def)
      ultimately show ?thesis using Inr False by (auto simp: Cons.IH)
    next
      case True
      show ?thesis
      proof (cases "hashable c")
        case False
        with Inr True show ?thesis by (simp add: passes_def set_add_def)
      next
        case hash: True
        with Inr True have "updates_loop (upd # upds) cs = updates_loop upds (finsert c cs)"
          by (simp add: set_add_def)
        moreover from Inr True hash have "passes upd" by (simp add: passes_def)
        ultimately show ?thesis using Inr True by (auto simp: Cons.IH)
      qed
    qed
  qed
qed

lemma contributors_body_set:
  "fset (snd (contributors_body w i cs)) = fset cs \<union> fset (gathered w i)"
  unfolding gathered_def contributors_body_def
  by (simp add: updates_loop_set [of _ cs] updates_loop_set [of _ "{||}"]
      split: sum.splits)

lemma contributors_loop_step:
  "contributors_loop w (i # ids) cs = contributors_loop w ids (snd (contributors_body w i cs))"
  by (cases "contributors_body w i cs") (simp split: option.splits)

lemma contributors_loop_result:
  "\<exists>cs'. contributors_loop w ids cs = Inr cs' \<and>
     fset cs' = fset cs \<union> (\<Union>i\<in>set ids. fset (gathered w i))"
proof (induction ids arbitrary: cs)
  case Nil
  show ?case by simp
next
  case (Cons i ids)
  from Cons.IH [of "snd (contributors_body w i cs)"] obtain cs' where
    "contributors_loop w ids (snd (contributors_body w i cs)) = Inr cs'"
    "fset cs' = fset (snd (contributors_body w i cs)) \<union> (\<Union>i\<in>set ids. fset (gathered w i))"
    by blast
  then show ?case
    unfolding contributors_loop_step by (auto simp: contributors_body_set)
qed

lemma get_work_item_contributors_result:
  "\<exists>cs. get_work_item_contributors w ids = Inr cs \<and>
     fset cs = (\<Union>i\<in>set ids. fset (gathered w i))"
proof (cases "ids = []")
  case True
  then show ?thesis by (simp add: get_work_item_contributors_def)
next
  case False
  then show ?thesis
    using contributors_loop_result [of w ids "{||}"]
    by (simp add: get_work_item_contributors_def)
qed

lemma gathered_fetch_raises:
  "fetch_work_item_updates w i = Inl e \<Longrightarrow> gathered w i = {||}"
  by (simp add: gathered_def contributors_body_def)

lemma gathered_not_iterable:
  "fetch_work_item_updates w i = Inr v \<Longrightarrow> py_iter v = Inl e \<Longrightarrow> gathered w i = {||}"
  by (simp add: gathered_def contributors_body_def)

lemma gathered_iterable:
  "fetch_work_item_updates w i = Inr v \<Longrightarrow> py_iter v = Inr upds \<Longrightarrow>
     fset (gathered w i) =
       {c. \<exists>upd\<in>set (takeWhile passes upds). extract_contributor upd = Inr c \<and> py_bool c}"
  by (simp add: gathered_def contributors_body_def updates_loop_set)

lemma gathered_strings:
  assumes "c \<in> fset (gathered w i)"
  shows "\<exists>n. c = JStr n \<and> n \<noteq> []"
proof (cases "fetch_work_item_updates w i")
  case (Inl e)
  with assms show ?thesis by (simp add: gathered_fetch_raises)
next
  case (Inr v)
  show ?thesis
  proof (cases "py_iter v")
    case (Inl e)
    with Inr assms show ?thesis by (simp add: gathered_not_iterable)
  next
    case upds: (Inr upds)
    from assms gathered_iterable [OF Inr upds] obtain upd where
      "upd \<in> set (takeWhile passes upds)" "extract_contributor upd = Inr c" "py_bool c"
      by auto
    moreover from this(1) have "passes upd" by (rule set_takeWhileD [THEN conjunct2])
    ultimately show ?thesis
      using extract_contributor_added [of upd c] by (auto simp: passes_def)
  qed
qed

lemma gathered_wf:
  assumes "fetch_work_item_updates w i = Inr (JArr upds)" and "list_all wf_update upds"
  shows "fset (gathered w i) =
           {JStr n |n. \<exists>upd\<in>set upds. extract_contributor upd = Inr (JStr n)}"
proof -
  from assms(2) have "\<forall>upd\<in>set upds. passes upd"
    by (simp add: list_all_iff passes_wf)
  then have tw: "takeWhile passes upds = upds" by (simp add: takeWhile_eq_all_conv)
  have "fset (gathered w i) =
          {c. \<exists>upd\<in>set upds. extract_contributor upd = Inr c \<and> py_bool c}"
    using gathered_iterable [OF assms(1), of upds] by (simp add: tw)
  also have "\<dots> = {JStr n |n. \<exists>upd\<in>set upds. extract_contributor upd = Inr (JStr n)}"
  proof (intro set_eqI iffI)
    fix c
    assume "c \<in> {c. \<exists>upd\<in>set upds. extract_contributor upd = Inr c \<and> py_bool c}"
    then obtain upd where u: "upd \<in> set upds" "extract_contributor upd = Inr c" "py_bool c"
      by auto
    from u(1) assms(2) have "wf_update upd" by (simp add: list_all_iff)
    from extract_contributor_wf [OF this] u(2,3) obtain n where "c = JStr n" by auto
    with u show "c \<in> {JStr n |n. \<exists>upd\<in>set upds. extract_contributor upd = Inr (JStr n)}"
      by auto
  next
    fix c
    assume "c \<in> {JStr n |n. \<exists>upd\<in>set upds. extract_contributor upd = Inr (JStr n)}"
    then obtain n upd where u: "c = JStr n" "upd \<in> set upds"
      "extract_contributor upd = Inr (JStr n)" by auto
    from extract_contributor_cases [OF u(3)] have "py_bool (JStr n)" by auto
    with u show "c \<in> {c. \<exists>upd\<in>set upds. extract_contributor upd = Inr c \<and> py_bool c}"
      by auto
  qed
  finally show ?thesis .
qed

lemma gathered_wf_history:
  assumes "\<forall>d. updates_api w i = Inr d \<longrightarrow> wf_history d"
  shows "fset (gathered w i) =
           {JStr n |n. \<exists>upds. fetch_work_item_updates w i = Inr (JArr upds) \<and>
                         (\<exists>upd\<in>set upds. extract_contributor upd = Inr (JStr n))}"
proof (cases "updates_api w i")
  case (Inl e)
  then have "fetch_work_item_updates w i = Inl e" by (simp add: fetch_work_item_updates_def)
  then show ?thesis by (simp add: gathered_fetch_raises)
next
  case (Inr d)
  with assms have "wf_history d" by simp
  then obtain items where d: "d = JObj items"
    and v: "wf_updates (map_of items (py ''value''))"
    by (cases d) simp_all
  from v consider "map_of items (py ''value'') = None"
    | upds where "map_of items (py ''value'') = Some (JArr upds)" "list_all wf_update upds"
  proof (cases "map_of items (py ''value'')")
    case None
    then show ?thesis using that by simp
  next
    case (Some x)
    with v that show ?thesis by (cases x) simp_all
  qed
  then obtain upds where f: "fetch_work_item_updates w i = Inr (JArr upds)"
    and wf: "list_all wf_update upds"
  proof cases
    case 1
    with Inr d have "fetch_work_item_updates w i = Inr (JArr [])"
      by (simp add: fetch_work_item_updates_def obj_get_def dict_get_def)
    then show ?thesis using that [of "[]"] by simp
  next
    case 2
    with Inr d have "fetch_work_item_updates w i = Inr (JArr upds)"
      by (simp add: fetch_work_item_updates_def obj_get_def dict_get_def
          del: map_of_eq_Some_iff)
    with 2 show ?thesis using that by simp
  qed
  from gathered_wf [OF f wf] f show ?thesis by simp
qed

text \<open>
  C6. For every list of work item ids and whatever the service answers,
  \<open>get_work_item_contributors\<close> returns a set and raises nothing. The set is the union,
  over the ids, of what each id gathers on its own, and holds non-empty strings only.
  An id whose fetch raises, or whose fetched value cannot be iterated, gathers
  nothing. An id whose fetch succeeds gathers the names extracted from its updates up
  to the first update on which the extraction or the \<open>add\<close> raises; an update of the
  documented form never does, so that a history of such updates gathers every name
  extracted from it. Hence, when every fetched document has the documented form, the
  result is exactly the union of the contributor names extracted from the ids whose
  fetch succeeded. The name extracted from a revision with a display name is that
  name, unless it is empty or contains one of the system-account patterns.
\<close>

theorem get_work_item_contributors_isolates_failures:
  "(\<exists>cs. get_work_item_contributors w ids = Inr cs \<and>
       fset cs = (\<Union>i\<in>set ids. fset (gathered w i)) \<and>
       (\<forall>c\<in>fset cs. \<exists>n. c = JStr n \<and> n \<noteq> [])) \<and>
   (\<forall>i e. fetch_work_item_updates w i = Inl e \<longrightarrow> gathered w i = {||}) \<and>
   (\<forall>i v e. fetch_work_item_updates w i = Inr v \<and> py_iter v = Inl e \<longrightarrow>
       gathered w i = {||}) \<and>
   (\<forall>i v upds. fetch_work_item_updates w i = Inr v \<and> py_iter v = Inr upds \<longrightarrow>
       fset (gathered w i) =
         {c. \<exists>upd\<in>set (takeWhile passes upds). extract_contributor upd = Inr c \<and> py_bool c}) \<and>
   (\<forall>upd. wf_update upd \<longrightarrow> passes upd) \<and>
   (\<forall>i upds. fetch_work_item_updates w i = Inr (JArr upds) \<and> list_all wf_update upds \<longrightarrow>
       fset (gathered w i) =
         {JStr n |n. \<exists>upd\<in>set upds. extract_contributor upd = Inr (JStr n)}) \<and>
   ((\<forall>i\<in>set ids. \<forall>d. updates_api w i = Inr d \<longrightarrow> wf_history d) \<longrightarrow>
      (\<exists>cs. get_work_item_contributors w ids = Inr cs \<and>
         fset cs =
           {JStr n |n. \<exists>i\<in>set ids. \<exists>upds.
              fetch_work_item_updates w i = Inr (JArr upds) \<and>
              (\<exists>upd\<in>set upds. extract_contributor upd = Inr (JStr n))})) \<and>
   (\<forall>items revised_by n.
      map_of items (py ''revisedBy'') = Some (JObj revised_by) \<and>
      map_of revised_by (py ''displayName'') = Some (JStr n) \<longrightarrow>
      extract_contributor (JObj items) =
        Inr (if n \<noteq> [] \<and> \<not> list_ex (\<lambda>pattern. py_in pattern n) SYSTEM_ACCOUNT_PATTERNS
             then JStr n else JNull))"
proof -
  from get_work_item_contributors_result [of w ids] obtain cs where
    cs: "get_work_item_contributors w ids = Inr cs"
        "fset cs = (\<Union>i\<in>set ids. fset (gathered w i))"
    by blast
  have strings: "\<forall>c\<in>fset cs. \<exists>n. c = JStr n \<and> n \<noteq> []"
    using cs(2) gathered_strings by auto
  have A: "\<exists>cs. get_work_item_contributors w ids = Inr cs \<and>
       fset cs = (\<Union>i\<in>set ids. fset (gathered w i)) \<and>
       (\<forall>c\<in>fset cs. \<exists>n. c = JStr n \<and> n \<noteq> [])"
    using cs strings by blast
  have B: "\<forall>i e. fetch_work_item_updates w i = Inl e \<longrightarrow> gathered w i = {||}"
    by (simp add: gathered_fetch_raises)
  have C: "\<forall>i v e. fetch_work_item_updates w i = Inr v \<and> py_iter v = Inl e \<longrightarrow>
       gathered w i = {||}"
    by (simp add: gathered_not_iterable)
  have D: "\<forall>i v upds. fetch_work_item_updates w i = Inr v \<and> py_iter v = Inr upds \<longrightarrow>
       fset (gathered w i) =
         {c. \<exists>upd\<in>set (takeWhile passes upds). extract_contributor upd = Inr c \<and> py_bool c}"
    using gathered_iterable by blast
  have E: "\<forall>upd. wf_update upd \<longrightarrow> passes upd"
    by (simp add: passes_wf)
  have F: "\<forall>i upds. fetch_work_item_updates w i = Inr (JArr upds) \<and> list_all wf_update upds \<longrightarrow>
       fset (gathered w i) =
         {JStr n |n. \<exists>upd\<in>set upds. extract_contributor upd = Inr (JStr n)}"
    using gathered_wf by blast
  have G: "(\<forall>i\<in>set ids. \<forall>d. updates_api w i = Inr d \<longrightarrow> wf_history d) \<longrightarrow>
      (\<exists>cs. get_work_item_contributors w ids = Inr cs \<and>
         fset cs =
           {JStr n |n. \<exists>i\<in>set ids. \<exists>upds.
              fetch_work_item_updates w i = Inr (JArr upds) \<and>
              (\<exists>upd\<in>set upds. extract_contributor upd = Inr (JStr n))})"
  proof
    assume wf: "\<forall>i\<in>set ids. \<forall>d. updates_api w i = Inr d \<longrightarrow> wf_history d"
    have "fset cs =
           {JStr n |n. \<exists>i\<in>set ids. \<exists>upds.
              fetch_work_item_updates w i = Inr (JArr upds) \<and>
              (\<exists>upd\<in>set upds. extract_contributor upd = Inr (JStr n))}"
      unfolding cs(2)
    proof (intro set_eqI iffI)
      fix c
      assume "c \<in> (\<Union>i\<in>set ids. fset (gathered w i))"
      then obtain i where i: "i \<in> set ids" "c \<in> fset (gathered w i)" by auto
      from wf i(1) have "\<forall>d. updates_api w i = Inr d \<longrightarrow> wf_history d" by simp
      from gathered_wf_history [OF this] i
      show "c \<in> {JStr n |n. \<exists>i\<in>set ids. \<exists>upds.
              fetch_work_item_updates w i = Inr (JArr upds) \<and>
              (\<exists>upd\<in>set upds. extract_contributor upd = Inr (JStr n))}"
        by auto
    next
      fix c
      assume "c \<in> {JStr n |n. \<exists>i\<in>set ids. \<exists>upds.
              fetch_work_item_updates w i = Inr (JArr upds) \<and>
              (\<exists>upd\<in>set upds. extract_contributor upd = Inr (JStr n))}"
      then obtain n i upds upd where c: "c = JStr n" "i \<in> set ids"
        "fetch_work_item_updates w i = Inr (JArr upds)"
        "upd \<in> set upds" "extract_contributor upd = Inr (JStr n)"
        by auto
      from wf c(2) have "\<forall>d. updates_api w i = Inr d \<longrightarrow> wf_history d" by simp
      from gathered_wf_history [OF this] c have "c \<in> fset (gathered w i)" by auto
      with c(2) show "c \<in> (\<Union>i\<in>set ids. fset (gathered w i))" by auto
    qed
    with cs(1) show "\<exists>cs. get_work_item_contributors w ids = Inr cs \<and>
         fset cs =
           {JStr n |n. \<exists>i\<in>set ids. \<exists>upds.
              fetch_work_item_updates w i = Inr (JArr upds) \<and>
              (\<exists>upd\<in>set upds. extract_contributor upd = Inr (JStr n))}"
      by blast
  qed
  have H: "\<forall>items revised_by n.
      map_of items (py ''revisedBy'') = Some (JObj revised_by) \<and>
      map_of revised_by (py ''displayName'') = Some (JStr n) \<longrightarrow>
      extract_contributor (JObj items) =
        Inr (if n \<noteq> [] \<and> \<not> list_ex (\<lambda>pattern. py_in pattern n) SYSTEM_ACCOUNT_PATTERNS
             then JStr n else JNull)"
    using extract_contributor_object by blast
  from A B C D E F G H show ?thesis by (intro conjI)
qed

theorem get_work_item_contributors_isolates_failures_witness:
  "fetch_work_item_updates history_remote 2 = Inl HTTPError \<and>
   get_work_item_contributors history_remote [1, 2, 3] =
     Inr {|JStr (py ''Alice''), JStr (py ''Bob'')|} \<and>
   gathered history_remote 1 = {|JStr (py ''Alice'')|} \<and>
   gathered history_remote 2 = {||} \<and>
   gathered history_remote 3 = {|JStr (py ''Bob'')|} \<and>
   passes (revision ''Alice'') \<and>
   extract_contributor (revision ''Alice'') = Inr (JStr (py ''Alice'')) \<and>
   extract_contributor (revision ''Project Collection Build Service (org)'') = Inr JNull \<and>
   \<not> passes (JObj [(py ''revisedBy'', JNull)]) \<and>
   gathered broken_history_remote 1 = {|JStr (py ''Alice'')|} \<and>
   gathered broken_history_remote 3 = {||} \<and>
   get_work_item_contributors broken_history_remote [1, 2, 3] =
     Inr {|JStr (py ''Alice''), JStr (py ''Bob''), JStr (py ''Dave'')|}"
proof -
  note defs = get_work_item_contributors_def gathered_def contributors_body_def
    fetch_work_item_updates_def obj_get_def dict_get_def extract_contributor_def
    is_system_account_def SYSTEM_ACCOUNT_PATTERNS_def set_add_def revision_def
  note spec = get_work_item_contributors_isolates_failures [of history_remote "[1, 2, 3]"]
  note spec' = get_work_item_contributors_isolates_failures [of broken_history_remote "[1, 2, 3]"]

  have raises: "fetch_work_item_updates history_remote 2 = Inl HTTPError"
    by (simp add: fetch_work_item_updates_def history_remote_def)
  from spec [THEN conjunct2, THEN conjunct1] raises
  have g2: "gathered history_remote 2 = {||}" by blast

  have f3: "fetch_work_item_updates broken_history_remote 3 = Inr JNull \<and>
      py_iter JNull = Inl TypeError"
    by (simp add: defs broken_history_remote_def)
  from spec' [THEN conjunct2, THEN conjunct2, THEN conjunct1] f3
  have b3: "gathered broken_history_remote 3 = {||}" by blast

  have wfa: "wf_update (revision ''Alice'')"
    by (simp add: revision_def)
  from spec [THEN conjunct2, THEN conjunct2, THEN conjunct2, THEN conjunct2, THEN conjunct1] wfa
  have p1: "passes (revision ''Alice'')" by blast
  have p2: "\<not> passes (JObj [(py ''revisedBy'', JNull)])"
    by (simp add: passes_def defs)

  have maps: "map_of [(py ''id'', JInt 1),
                 (py ''revisedBy'', JObj [(py ''displayName'', JStr (py ''Alice''))])]
               (py ''revisedBy'') = Some (JObj [(py ''displayName'', JStr (py ''Alice''))]) \<and>
      map_of [(py ''displayName'', JStr (py ''Alice''))] (py ''displayName'') =
        Some (JStr (py ''Alice''))"
    by simp
  have clean: "py ''Alice'' \<noteq> [] \<and>
      \<not> list_ex (\<lambda>pattern. py_in pattern (py ''Alice'')) SYSTEM_ACCOUNT_PATTERNS"
    by (simp add: SYSTEM_ACCOUNT_PATTERNS_def)
  from spec [THEN conjunct2, THEN conjunct2, THEN conjunct2, THEN conjunct2, THEN conjunct2,
      THEN conjunct2, THEN conjunct2, rule_format, OF maps] clean
  have xa: "extract_contributor (revision ''Alice'') = Inr (JStr (py ''Alice''))"
    unfolding revision_def by simp
  have xs: "extract_contributor (revision ''Project Collection Build Service (org)'') = Inr JNull"
    by (simp add: defs)

  have f1: "fetch_work_item_updates broken_history_remote 1 =
        Inr (JArr [revision ''Alice'', JObj [(py ''revisedBy'', JNull)], revision ''Carol'']) \<and>
      py_iter (JArr [revision ''Alice'', JObj [(py ''revisedBy'', JNull)], revision ''Carol'']) =
        Inr [revision ''Alice'', JObj [(py ''revisedBy'', JNull)], revision ''Carol'']"
    by (simp add: fetch_work_item_updates_def obj_get_def dict_get_def broken_history_remote_def)
  have tw: "takeWhile passes [revision ''Alice'', JObj [(py ''revisedBy'', JNull)], revision ''Carol''] =
      [revision ''Alice'']"
    using p1 p2 by simp
  note b1a = spec' [THEN conjunct2, THEN conjunct2, THEN conjunct2, THEN conjunct1, rule_format,
      OF f1, unfolded tw]
  have "fset (gathered broken_history_remote 1) = fset {|JStr (py ''Alice'')|}"
    unfolding b1a by (auto simp: xa)
  then have b1: "gathered broken_history_remote 1 = {|JStr (py ''Alice'')|}"
    by (simp only: fset_inject)

  have fh1: "fetch_work_item_updates history_remote 1 =
        Inr (JArr [revision ''Alice'', revision ''Project Collection Build Service (org)'']) \<and>
      list_all wf_update [revision ''Alice'', revision ''Project Collection Build Service (org)'']"
    by (simp add: fetch_work_item_updates_def obj_get_def dict_get_def history_remote_def
        revision_def)
  note g1a = spec [THEN conjunct2, THEN conjunct2, THEN conjunct2, THEN conjunct2, THEN conjunct2,
      THEN conjunct1, rule_format, OF fh1]
  have "fset (gathered history_remote 1) = fset {|JStr (py ''Alice'')|}"
    unfolding g1a by (simp add: xa xs)
  then have g1: "gathered history_remote 1 = {|JStr (py ''Alice'')|}"
    by (simp only: fset_inject)
  have g3: "gathered history_remote 3 = {|JStr (py ''Bob'')|}"
    by (simp add: defs history_remote_def)

  have wf: "\<forall>i\<in>set [1, 2, 3]. \<forall>d. updates_api history_remote i = Inr d \<longrightarrow> wf_history d"
    by (auto simp: history_remote_def revision_def)
  from spec [THEN conjunct2, THEN conjunct2, THEN conjunct2, THEN conjunct2, THEN conjunct2,
      THEN conjunct2, THEN conjunct1, THEN mp, OF wf]
  obtain cs' where "get_work_item_contributors history_remote [1, 2, 3] = Inr cs'"
    by (elim exE conjE)
  from spec [THEN conjunct1] obtain cs where
    cs: "get_work_item_contributors history_remote [1, 2, 3] = Inr cs"
        "fset cs = (\<Union>i\<in>set [1, 2, 3]. fset (gathered history_remote i))"
    by (elim exE conjE)
  from cs(2) have "fset cs = fset {|JStr (py ''Alice''), JStr (py ''Bob'')|}"
    by (simp add: g1 g2 g3 insert_commute)
  then have "cs = {|JStr (py ''Alice''), JStr (py ''Bob'')|}"
    by (simp only: fset_inject)
  with cs(1) have e1: "get_work_item_contributors history_remote [1, 2, 3] =
      Inr {|JStr (py ''Alice''), JStr (py ''Bob'')|}"
    by simp
  have e2: "get_work_item_contributors broken_history_remote [1, 2, 3] =
      Inr {|JStr (py ''Alice''), JStr (py ''Bob''), JStr (py ''Dave'')|}"
    by (simp add: defs broken_history_remote_def finsert_commute)
  from raises e1 g1 g2 g3 p1 xa xs p2 b1 b3 e2 show ?thesis
    by (intro conjI)
qed
section \<open>Release date\<close>

text \<open>
  C1. The release date of a list of releases, for every list and every parser. The
  source reads an empty timestamp as an absent one (\<open>if r.prod_deploy_time\<close>): the
  date is \<open>Unreleased\<close> exactly when no release has a non-empty timestamp, and
  otherwise it is the largest of the non-empty timestamps, with \<open>Z\<close> replaced by
  \<open>+00:00\<close>, parsed and formatted as month, day and year (the parser's exception when
  it raises on that timestamp). A timestamp of the data model is ISO-8601 text and so
  never empty; for such lists the date is \<open>Unreleased\<close> exactly when the list is empty
  or every release has an absent timestamp, and otherwise it is the formatted largest
  of the present timestamps.
\<close>

theorem extract_release_date_spec:
  "(extract_release_date fromisoformat releases = Inr (py ''Unreleased'') \<longleftrightarrow>
      (\<forall>r\<in>set releases. \<not> truthy (prod_deploy_time r))) \<and>
   ((\<exists>r\<in>set releases. truthy (prod_deploy_time r)) \<longrightarrow>
      extract_release_date fromisoformat releases =
        (case fromisoformat (str_replace_char 90 (py ''+00:00'')
                (Max {t. t \<noteq> [] \<and> (\<exists>r\<in>set releases. prod_deploy_time r = Some t)})) of
           Inl e \<Rightarrow> Inl e
         | Inr d \<Rightarrow> Inr (strftime_B_d_Y d))) \<and>
   ((\<forall>r\<in>set releases. prod_deploy_time r \<noteq> Some []) \<longrightarrow>
      (extract_release_date fromisoformat releases = Inr (py ''Unreleased'') \<longleftrightarrow>
         releases = [] \<or> (\<forall>r\<in>set releases. prod_deploy_time r = None)) \<and>
      (\<not> (releases = [] \<or> (\<forall>r\<in>set releases. prod_deploy_time r = None)) \<longrightarrow>
         extract_release_date fromisoformat releases =
           (case fromisoformat (str_replace_char 90 (py ''+00:00'')
                   (Max {t. \<exists>r\<in>set releases. prod_deploy_time r = Some t})) of
              Inl e \<Rightarrow> Inl e
            | Inr d \<Rightarrow> Inr (strftime_B_d_Y d))))"
proof -
  let ?T = "{t. t \<noteq> [] \<and> (\<exists>r\<in>set releases. prod_deploy_time r = Some t)}"
  have tr: "truthy (prod_deploy_time r) \<longleftrightarrow> (\<exists>t. t \<noteq> [] \<and> prod_deploy_time r = Some t)"
    for r :: Release
    by (cases "prod_deploy_time r") (simp_all add: truthy_def)
  have none: "?T = {} \<longleftrightarrow> (\<forall>r\<in>set releases. \<not> truthy (prod_deploy_time r))"
    unfolding tr by blast
  have A: "extract_release_date fromisoformat releases = Inr (py ''Unreleased'')" if "?T = {}"
    using that by (rule extract_release_date_none)
  have B: "extract_release_date fromisoformat releases =
      (case fromisoformat (str_replace_char 90 (py ''+00:00'') (Max ?T)) of
         Inl e \<Rightarrow> Inl e
       | Inr d \<Rightarrow> Inr (strftime_B_d_Y d))" if "?T \<noteq> {}"
    using that by (rule extract_release_date_some)
  have C: "extract_release_date fromisoformat releases \<noteq> Inr (py ''Unreleased'')" if "?T \<noteq> {}"
  proof (cases "fromisoformat (str_replace_char 90 (py ''+00:00'') (Max ?T))")
    case (Inl e)
    with B [OF that] show ?thesis by simp
  next
    case (Inr d)
    with B [OF that] strftime_not_Unreleased [of d] show ?thesis by simp
  qed
  from A C have unrel:
    "extract_release_date fromisoformat releases = Inr (py ''Unreleased'') \<longleftrightarrow> ?T = {}"
    by blast
  have general: "extract_release_date fromisoformat releases = Inr (py ''Unreleased'') \<longleftrightarrow>
      (\<forall>r\<in>set releases. \<not> truthy (prod_deploy_time r))"
    using unrel none by simp
  have latest: "extract_release_date fromisoformat releases =
        (case fromisoformat (str_replace_char 90 (py ''+00:00'') (Max ?T)) of
           Inl e \<Rightarrow> Inl e
         | Inr d \<Rightarrow> Inr (strftime_B_d_Y d))"
    if "\<exists>r\<in>set releases. truthy (prod_deploy_time r)"
    using that none B by blast
  have model: "(extract_release_date fromisoformat releases = Inr (py ''Unreleased'') \<longleftrightarrow>
         releases = [] \<or> (\<forall>r\<in>set releases. prod_deploy_time r = None)) \<and>
      (\<not> (releases = [] \<or> (\<forall>r\<in>set releases. prod_deploy_time r = None)) \<longrightarrow>
         extract_release_date fromisoformat releases =
           (case fromisoformat (str_replace_char 90 (py ''+00:00'')
                   (Max {t. \<exists>r\<in>set releases. prod_deploy_time r = Some t})) of
              Inl e \<Rightarrow> Inl e
            | Inr d \<Rightarrow> Inr (strftime_B_d_Y d)))"
    if wf: "\<forall>r\<in>set releases. prod_deploy_time r \<noteq> Some []"
  proof -
    have T: "?T = {t. \<exists>r\<in>set releases. prod_deploy_time r = Some t}"
      using wf by auto
    have "prod_deploy_time r = None \<longleftrightarrow> \<not> (\<exists>t. prod_deploy_time r = Some t)" for r :: Release
      by simp
    then have "{t. \<exists>r\<in>set releases. prod_deploy_time r = Some t} = {} \<longleftrightarrow>
        (\<forall>r\<in>set releases. prod_deploy_time r = None)"
      by blast
    then have empty: "?T = {} \<longleftrightarrow>
        releases = [] \<or> (\<forall>r\<in>set releases. prod_deploy_time r = None)"
      unfolding T by auto
    have other: "extract_release_date fromisoformat releases =
        (case fromisoformat (str_replace_char 90 (py ''+00:00'')
                (Max {t. \<exists>r\<in>set releases. prod_deploy_time r = Some t})) of
           Inl e \<Rightarrow> Inl e
         | Inr d \<Rightarrow> Inr (strftime_B_d_Y d))"
      if "?T \<noteq> {}"
      using B [OF that] unfolding T .
    from empty unrel other show ?thesis
      by blast
  qed
  show ?thesis
  proof (intro conjI impI)
    show "extract_release_date fromisoformat releases = Inr (py ''Unreleased'') \<longleftrightarrow>
      (\<forall>r\<in>set releases. \<not> truthy (prod_deploy_time r))"
      by (rule general)
  next
    assume "\<exists>r\<in>set releases. truthy (prod_deploy_time r)"
    then show "extract_release_date fromisoformat releases =
        (case fromisoformat (str_replace_char 90 (py ''+00:00'') (Max ?T)) of
           Inl e \<Rightarrow> Inl e
         | Inr d \<Rightarrow> Inr (strftime_B_d_Y d))"
      by (rule latest)
  next
    assume wf: "\<forall>r\<in>set releases. prod_deploy_time r \<noteq> Some []"
    show "extract_release_date fromisoformat releases = Inr (py ''Unreleased'') \<longleftrightarrow>
         releases = [] \<or> (\<forall>r\<in>set releases. prod_deploy_time r = None)"
      using model [OF wf] by (rule conjunct1)
  next
    assume wf: "\<forall>r\<in>set releases. prod_deploy_time r \<noteq> Some []"
      and "\<not> (releases = [] \<or> (\<forall>r\<in>set releases. prod_deploy_time r = None))"
    then show "extract_release_date fromisoformat releases =
           (case fromisoformat (str_replace_char 90 (py ''+00:00'')
                   (Max {t. \<exists>r\<in>set releases. prod_deploy_time r = Some t})) of
              Inl e \<Rightarrow> Inl e
            | Inr d \<Rightarrow> Inr (strftime_B_d_Y d))"
      using model [OF wf] by blast
  qed
qed

theorem extract_release_date_spec_witness:
  "extract_release_date sample_fromisoformat sample_releases = Inr (py ''November 06, 2025'') \<and>
   extract_release_date sample_fromisoformat build_releases = Inr (py ''Unreleased'') \<and>
   extract_release_date sample_fromisoformat [] = Inr (py ''Unreleased'')"
proof -
  have wf1: "\<forall>r\<in>set sample_releases. prod_deploy_time r \<noteq> Some []"
    by (simp add: sample_releases_def)
  have present: "\<not> (sample_releases = [] \<or> (\<forall>r\<in>set sample_releases. prod_deploy_time r = None))"
    by (simp add: sample_releases_def)
  have times: "{t. \<exists>r\<in>set sample_releases. prod_deploy_time r = Some t} =
      {py ''2025-11-06T11:39:14.667Z'', py ''2025-11-06T12:00:00.000Z''}"
    by (auto simp: sample_releases_def)
  have latest: "Max {py ''2025-11-06T11:39:14.667Z'', py ''2025-11-06T12:00:00.000Z''} =
      py ''2025-11-06T12:00:00.000Z''"
    by simp
  have parsed: "sample_fromisoformat (str_replace_char 90 (py ''+00:00'') (py ''2025-11-06T12:00:00.000Z'')) =
      Inr \<lparr>dt_year = 2025, dt_month = November, dt_day = 6\<rparr>"
    by (simp add: sample_fromisoformat_def str_replace_char_def)
  have formatted: "strftime_B_d_Y \<lparr>dt_year = 2025, dt_month = November, dt_day = 6\<rparr> =
      py ''November 06, 2025''"
    by (simp add: strftime_B_d_Y_def str_of_nat.simps)
  from extract_release_date_spec [of sample_fromisoformat sample_releases] wf1 present
  have "extract_release_date sample_fromisoformat sample_releases =
      (case sample_fromisoformat (str_replace_char 90 (py ''+00:00'')
              (Max {t. \<exists>r\<in>set sample_releases. prod_deploy_time r = Some t})) of
         Inl e \<Rightarrow> Inl e
       | Inr d \<Rightarrow> Inr (strftime_B_d_Y d))"
    by blast
  then have a: "extract_release_date sample_fromisoformat sample_releases = Inr (py ''November 06, 2025'')"
    unfolding times latest parsed using formatted by simp
  have wf2: "\<forall>r\<in>set build_releases. prod_deploy_time r \<noteq> Some []"
    by (simp add: build_releases_def)
  have absent: "build_releases = [] \<or> (\<forall>r\<in>set build_releases. prod_deploy_time r = None)"
    by (simp add: build_releases_def)
  from extract_release_date_spec [of sample_fromisoformat build_releases] wf2 absent
  have b: "extract_release_date sample_fromisoformat build_releases = Inr (py ''Unreleased'')"
    by blast
  have wf3: "\<forall>r\<in>set ([] :: Release list). prod_deploy_time r \<noteq> Some []"
    by simp
  from extract_release_date_spec [of sample_fromisoformat "[]"] wf3
  have c: "extract_release_date sample_fromisoformat [] = Inr (py ''Unreleased'')"
    by blast
  from a b c show ?thesis by blast
qed

section \<open>Deployment notes extraction\<close>

lemma split_first_decomp:
  "split_first pat s = Some (a, b) \<Longrightarrow> s = a @ pat @ b"
proof (induction s arbitrary: a)
  case Nil
  then show ?case by (simp split: if_splits)
next
  case (Cons c cs)
  show ?case
  proof (cases "prefix pat (c # cs)")
    case True
    with Cons.prems have "a = []" "b = drop (length pat) (c # cs)"
      by simp_all
    moreover from True have "c # cs = pat @ drop (length pat) (c # cs)"
      by (metis append_eq_conv_conj prefix_def)
    ultimately show ?thesis by simp
  next
    case False
    with Cons.prems obtain a' where "split_first pat cs = Some (a', b)" "a = c # a'"
      by auto
    with Cons.IH [of a'] show ?thesis by simp
  qed
qed

lemma split_first_is_first:
  "split_first pat s = Some (a, b) \<Longrightarrow> s = a' @ pat @ b' \<Longrightarrow> length a \<le> length a'"
proof (induction s arbitrary: a a')
  case Nil
  then show ?case by (simp split: if_splits)
next
  case (Cons c cs)
  show ?case
  proof (cases "prefix pat (c # cs)")
    case True
    with Cons.prems(1) show ?thesis by simp
  next
    case False
    with Cons.prems(1) obtain a0 where a0: "split_first pat cs = Some (a0, b)" "a = c # a0"
      by auto
    from False Cons.prems(2) have "a' \<noteq> []"
      by (auto simp: prefix_def)
    then obtain a1 where a1: "a' = c # a1" "cs = a1 @ pat @ b'"
      using Cons.prems(2) by (cases a') auto
    from Cons.IH [OF a0(1) a1(2)] a0(2) a1(1) show ?thesis by simp
  qed
qed

lemma split_first_exists:
  "s = a' @ pat @ b' \<Longrightarrow> \<exists>a b. split_first pat s = Some (a, b)"
proof (induction a' arbitrary: s)
  case Nil
  then have "prefix pat s" by simp
  then show ?case by (cases s) auto
next
  case (Cons c a1)
  then obtain cs where s: "s = c # cs" "cs = a1 @ pat @ b'" by simp
  from Cons.IH [OF s(2)] obtain a b where "split_first pat cs = Some (a, b)" by blast
  with s(1) show ?case by (cases "prefix pat (c # cs)") auto
qed

lemma findall_li_Nil_iff:
  "findall_li s \<noteq> [] \<longleftrightarrow> (\<exists>a b c. s = a @ py ''<li>'' @ b @ py ''</li>'' @ c)"
proof
  assume "findall_li s \<noteq> []"
  then obtain before rest item rest' where
    "split_first (py ''<li>'') s = Some (before, rest)"
    "split_first (py ''</li>'') rest = Some (item, rest')"
    by (auto simp: findall_li.simps [of s] split: option.splits)
  then have "s = before @ py ''<li>'' @ rest" "rest = item @ py ''</li>'' @ rest'"
    by (auto dest: split_first_decomp)
  then have "s = before @ py ''<li>'' @ item @ py ''</li>'' @ rest'"
    by simp
  then show "\<exists>a b c. s = a @ py ''<li>'' @ b @ py ''</li>'' @ c"
    by blast
next
  assume "\<exists>a b c. s = a @ py ''<li>'' @ b @ py ''</li>'' @ c"
  then obtain a b c where s: "s = a @ py ''<li>'' @ b @ py ''</li>'' @ c"
    by blast
  then obtain before rest where sf: "split_first (py ''<li>'') s = Some (before, rest)"
    using split_first_exists [of s a "py ''<li>''" "b @ py ''</li>'' @ c"] by blast
  have le: "length before \<le> length a"
    using split_first_is_first [OF sf, of a "b @ py ''</li>'' @ c"] s by simp
  have dec: "s = before @ py ''<li>'' @ rest"
    using sf by (rule split_first_decomp)
  define X where "X = a @ py ''<li>'' @ b"
  have lenX: "length before + 4 \<le> length X"
    using le by (simp add: X_def)
  have sX: "s = X @ py ''</li>'' @ c"
    using s by (simp add: X_def)
  have "drop (length before + 4) (before @ py ''<li>'' @ rest) = rest"
    by simp
  then have "rest = drop (length before + 4) s"
    using dec by simp
  also have "\<dots> = drop (length before + 4) X @ py ''</li>'' @ c"
    using lenX sX by simp
  finally obtain item rest' where "split_first (py ''</li>'') rest = Some (item, rest')"
    using split_first_exists by blast
  with sf show "findall_li s \<noteq> []"
    by (simp add: findall_li.simps [of s])
qed

lemma prefix_tag_iff:
  "62 \<notin> set q \<Longrightarrow> 62 \<notin> set b \<Longrightarrow> prefix (q @ [62]) (b @ 62 # rest) \<longleftrightarrow> q = (b :: pystr)"
proof (induction q arbitrary: b)
  case Nil
  then show ?case by (cases b) auto
next
  case (Cons y q)
  then show ?case by (cases b) auto
qed

lemma split_first_skip:
  "c0 \<notin> set xs \<Longrightarrow>
   split_first (c0 # p) (xs @ ys) = map_option (\<lambda>(a, r). (xs @ a, r)) (split_first (c0 # p) ys)"
proof (induction xs)
  case Nil
  show ?case by (simp add: option.map_ident split_def)
next
  case (Cons x xs)
  then have "\<not> prefix (c0 # p) (x # xs @ ys)" by auto
  with Cons show ?case
    by (simp add: option.map_comp comp_def split_def)
qed

lemma render_markup_simps:
  "render_markup [] = []"
  "render_markup (t # ts) = render_token t @ render_markup ts"
  "render_markup (ts @ ts') = render_markup ts @ render_markup ts'"
  by (simp_all add: render_markup_def)

lemma not_isspace_angle: "\<not> isspace 60" "\<not> isspace 62"
  by (simp_all add: isspace_def)

lemma split_first_render:
  assumes "list_all wf_token ts" and "wf_token (Tag q)"
    and "split_first (render_token (Tag q)) (render_markup ts) = Some (a, r)"
  shows "\<exists>ts1 ts2. ts = ts1 @ Tag q # ts2 \<and> a = render_markup ts1 \<and> r = render_markup ts2"
  using assms(1,3)
proof (induction ts arbitrary: a)
  case Nil
  then show ?case by (simp add: render_markup_simps)
next
  case (Cons t ts)
  from Cons.prems(1) have wfts: "list_all wf_token ts" and wft: "wf_token t"
    by simp_all
  from assms(2) have q: "62 \<notin> set q" by simp
  show ?case
  proof (cases t)
    case (Whitespace c)
    with wft have "c \<noteq> 60" using not_isspace_angle(1) by auto
    then have "\<not> prefix (render_token (Tag q)) (render_markup (t # ts))"
      using Whitespace by (simp add: render_markup_simps)
    with Cons.prems(2) Whitespace obtain a' where
      a': "split_first (render_token (Tag q)) (render_markup ts) = Some (a', r)" "a = c # a'"
      by (auto simp: render_markup_simps)
    from Cons.IH [OF wfts a'(1)] obtain ts1 ts2 where
      "ts = ts1 @ Tag q # ts2" "a' = render_markup ts1" "r = render_markup ts2"
      by blast
    with a'(2) Whitespace have
      "t # ts = (t # ts1) @ Tag q # ts2 \<and> a = render_markup (t # ts1) \<and> r = render_markup ts2"
      by (simp add: render_markup_simps)
    then show ?thesis by blast
  next
    case (Tag b)
    with wft have b: "b \<noteq> []" "60 \<notin> set b" "62 \<notin> set b" by simp_all
    show ?thesis
    proof (cases "q = b")
      case True
      have "prefix (render_token (Tag q)) (render_markup (t # ts))"
        using True Tag by (simp add: render_markup_simps)
      with Cons.prems(2) have "a = []"
        "r = drop (length (render_token (Tag q))) (render_markup (t # ts))"
        using Tag True by (simp_all add: render_markup_simps)
      then have "t # ts = [] @ Tag q # ts \<and> a = render_markup [] \<and> r = render_markup ts"
        using Tag True by (simp add: render_markup_simps)
      then show ?thesis by blast
    next
      case False
      then have np: "\<not> prefix (q @ [62]) (b @ 62 # render_markup ts)"
        using prefix_tag_iff [OF q b(3)] by simp
      have "split_first (render_token (Tag q)) (render_markup (t # ts)) =
          map_option (\<lambda>(a, r). (60 # a, r))
            (split_first (60 # q @ [62]) ((b @ [62]) @ render_markup ts))"
        using np Tag by (simp add: render_markup_simps)
      also have "\<dots> = map_option (\<lambda>(a, r). (60 # a, r))
            (map_option (\<lambda>(a, r). ((b @ [62]) @ a, r))
               (split_first (60 # q @ [62]) (render_markup ts)))"
        using b(2) by (subst split_first_skip) simp_all
      finally obtain a' where
        a': "split_first (render_token (Tag q)) (render_markup ts) = Some (a', r)"
          "a = 60 # (b @ [62]) @ a'"
        using Cons.prems(2) by auto
      from Cons.IH [OF wfts a'(1)] obtain ts1 ts2 where
        "ts = ts1 @ Tag q # ts2" "a' = render_markup ts1" "r = render_markup ts2"
        by blast
      with a'(2) Tag have
        "t # ts = (t # ts1) @ Tag q # ts2 \<and> a = render_markup (t # ts1) \<and> r = render_markup ts2"
        by (simp add: render_markup_simps)
      then show ?thesis by blast
    qed
  qed
qed


lemma sub_tags_render:
  "list_all wf_token ts \<Longrightarrow> \<forall>c\<in>set (sub_tags (render_markup ts)). isspace c"
proof (induction ts)
  case Nil
  then show ?case by (simp add: render_markup_simps sub_tags.simps)
next
  case (Cons t ts)
  then have IH: "\<forall>c\<in>set (sub_tags (render_markup ts)). isspace c" and wft: "wf_token t"
    by simp_all
  show ?case
  proof (cases t)
    case (Whitespace c)
    with wft have "isspace c" "c \<noteq> 60"
      using not_isspace_angle(1) by auto
    then have "sub_tags (render_markup (t # ts)) = c # sub_tags (render_markup ts)"
      using Whitespace by (simp add: render_markup_simps sub_tags.simps)
    with IH \<open>isspace c\<close> show ?thesis by simp
  next
    case (Tag b)
    with wft have b: "b \<noteq> []" "62 \<notin> set b" by simp_all
    have tw: "takeWhile (\<lambda>x. x \<noteq> 62) (b @ 62 # render_markup ts) = b"
      using b(2) by (subst takeWhile_append2) auto
    have dw: "dropWhile (\<lambda>x. x \<noteq> 62) (b @ 62 # render_markup ts) = 62 # render_markup ts"
      using b(2) by (subst dropWhile_append2) auto
    have "sub_tags (render_markup (t # ts)) = sub_tags (60 # b @ 62 # render_markup ts)"
      using Tag by (simp add: render_markup_simps)
    also have "\<dots> = sub_tags (render_markup ts)"
      using b(1) by (simp add: sub_tags.simps(2) [of 60] tw dw)
    finally show ?thesis using IH by simp
  qed
qed

lemma clean_render:
  "list_all wf_token ts \<Longrightarrow> strip (sub_tags (render_markup ts)) = []"
  using sub_tags_render [of ts] by (simp add: strip_Nil_iff)

lemma findall_li_render:
  "list_all wf_token ts \<Longrightarrow>
   \<forall>x\<in>set (findall_li (render_markup ts)). \<exists>ts'. list_all wf_token ts' \<and> x = render_markup ts'"
proof (induction "length ts" arbitrary: ts rule: less_induct)
  case less
  have li: "wf_token (Tag (py ''li''))" and cli: "wf_token (Tag (py ''/li''))"
    by simp_all
  have rli: "render_token (Tag (py ''li'')) = py ''<li>''"
    and rcli: "render_token (Tag (py ''/li'')) = py ''</li>''"
    by simp_all
  show ?case
  proof (cases "split_first (py ''<li>'') (render_markup ts)")
    case None
    then show ?thesis by (simp add: findall_li.simps [of "render_markup ts"])
  next
    case (Some p)
    obtain before rest where p: "p = (before, rest)" by (cases p)
    from split_first_render [OF less.prems li, of before rest] Some p rli
    obtain ts1 ts2 where t12: "ts = ts1 @ Tag (py ''li'') # ts2" "rest = render_markup ts2"
      by auto
    from less.prems t12(1) have wf2: "list_all wf_token ts2" by simp
    show ?thesis
    proof (cases "split_first (py ''</li>'') rest")
      case None
      with Some p show ?thesis by (simp add: findall_li.simps [of "render_markup ts"])
    next
      case inner: (Some p')
      obtain item rest' where p': "p' = (item, rest')" by (cases p')
      from split_first_render [OF wf2 cli, of item rest'] inner p' rcli t12(2)
      obtain ts3 ts4 where t34: "ts2 = ts3 @ Tag (py ''/li'') # ts4"
        "item = render_markup ts3" "rest' = render_markup ts4"
        by auto
      from wf2 t34(1) have wf3: "list_all wf_token ts3" and wf4: "list_all wf_token ts4"
        by simp_all
      have "length ts4 < length ts"
        using t12(1) t34(1) by simp
      from less.hyps [OF this wf4] have
        IH: "\<forall>x\<in>set (findall_li (render_markup ts4)). \<exists>ts'. list_all wf_token ts' \<and> x = render_markup ts'" .
      have "findall_li (render_markup ts) = item # findall_li rest'"
        using Some p inner p' by (simp add: findall_li.simps [of "render_markup ts"])
      with IH t34(2,3) wf3 show ?thesis by auto
    qed
  qed
qed

lemma convert_fold:
  "fold (\<lambda>item cleaned_items.
          if strip (sub_tags item) \<noteq> [] then cleaned_items @ [strip (sub_tags item)]
          else cleaned_items) items acc =
   acc @ filter (\<lambda>x. x \<noteq> []) (map (\<lambda>item. strip (sub_tags item)) items)"
  by (induction items arbitrary: acc) simp_all

lemma convert_notes_cases:
  "convert_notes_to_list_items s =
     (if findall_li s \<noteq> []
      then filter (\<lambda>x. x \<noteq> []) (map (\<lambda>item. strip (sub_tags item)) (findall_li s))
      else if strip (sub_tags s) \<noteq> [] then [strip (sub_tags s)] else [])"
  by (simp add: convert_notes_to_list_items_def Let_def convert_fold)

lemma convert_render:
  assumes "list_all wf_token ts"
  shows "convert_notes_to_list_items (render_markup ts) = []"
proof -
  have "\<forall>x\<in>set (findall_li (render_markup ts)). strip (sub_tags x) = []"
    using findall_li_render [OF assms] clean_render by auto
  then have "filter (\<lambda>x. x \<noteq> [])
      (map (\<lambda>item. strip (sub_tags item)) (findall_li (render_markup ts))) = []"
    by (simp add: filter_empty_conv)
  with clean_render [OF assms] show ?thesis
    by (simp add: convert_notes_cases)
qed


lemma findall_li_Cons:
  assumes "findall_li s = item # items"
  shows "\<exists>before rest.
           s = before @ py ''<li>'' @ item @ py ''</li>'' @ rest \<and> items = findall_li rest \<and>
           (\<forall>a' b'. s = a' @ py ''<li>'' @ b' \<longrightarrow> length before \<le> length a') \<and>
           (\<forall>a' b'. item @ py ''</li>'' @ rest = a' @ py ''</li>'' @ b' \<longrightarrow>
              length item \<le> length a')"
proof -
  from assms obtain before r rest where
    sf: "split_first (py ''<li>'') s = Some (before, r)"
      "split_first (py ''</li>'') r = Some (item, rest)" "items = findall_li rest"
    by (auto simp: findall_li.simps [of s] split: option.splits)
  have d1: "s = before @ py ''<li>'' @ r"
    using sf(1) by (rule split_first_decomp)
  have d2: "r = item @ py ''</li>'' @ rest"
    using sf(2) by (rule split_first_decomp)
  have f1: "\<forall>a' b'. s = a' @ py ''<li>'' @ b' \<longrightarrow> length before \<le> length a'"
    using split_first_is_first [OF sf(1)] by blast
  have f2: "\<forall>a' b'. item @ py ''</li>'' @ rest = a' @ py ''</li>'' @ b' \<longrightarrow>
      length item \<le> length a'"
    using split_first_is_first [OF sf(2)] d2 by blast
  from d1 d2 have "s = before @ py ''<li>'' @ item @ py ''</li>'' @ rest"
    by simp
  with sf(3) f1 f2 show ?thesis by blast
qed

text \<open>
  C4. \<open>_convert_notes_to_list_items\<close> is a total function on strings. On
  \<open><ul><li>A</li><li>B</li></ul>\<close> it returns \<open>A\<close> and \<open>B\<close>; on \<open>Do X\<close> it returns
  \<open>Do X\<close>; on every string of whitespace and tags only it returns the empty list. In
  general: the input contains list-item markers (an \<open><li>\<close> with an \<open></li>\<close>
  somewhere behind it) exactly when \<open>findall_li\<close> finds an item; then the result is the
  tag-stripped, trimmed contents of the markers, in order, without the empty ones;
  otherwise it is the tag-stripped, trimmed input as the only element, or the empty
  list when nothing is left. The contents are read from left to right: the first is
  what stands between the first \<open><li>\<close> of the input and the first \<open></li>\<close> behind
  it, the others are the contents found in what follows that \<open></li>\<close>.
\<close>

theorem convert_notes_to_list_items_spec:
  "convert_notes_to_list_items (py ''<ul><li>A</li><li>B</li></ul>'') = [py ''A'', py ''B''] \<and>
   convert_notes_to_list_items (py ''Do X'') = [py ''Do X''] \<and>
   (list_all wf_token ts \<longrightarrow> convert_notes_to_list_items (render_markup ts) = []) \<and>
   (findall_li s \<noteq> [] \<longleftrightarrow> (\<exists>a b c. s = a @ py ''<li>'' @ b @ py ''</li>'' @ c)) \<and>
   (findall_li s \<noteq> [] \<longrightarrow>
      convert_notes_to_list_items s =
        filter (\<lambda>x. x \<noteq> []) (map (\<lambda>item. strip (sub_tags item)) (findall_li s))) \<and>
   (findall_li s = [] \<longrightarrow>
      convert_notes_to_list_items s =
        (if strip (sub_tags s) \<noteq> [] then [strip (sub_tags s)] else [])) \<and>
   (\<forall>item items. findall_li s = item # items \<longrightarrow>
      (\<exists>before rest.
         s = before @ py ''<li>'' @ item @ py ''</li>'' @ rest \<and> items = findall_li rest \<and>
         (\<forall>a' b'. s = a' @ py ''<li>'' @ b' \<longrightarrow> length before \<le> length a') \<and>
         (\<forall>a' b'. item @ py ''</li>'' @ rest = a' @ py ''</li>'' @ b' \<longrightarrow>
            length item \<le> length a')))"
proof -
  have ex1: "convert_notes_to_list_items (py ''<ul><li>A</li><li>B</li></ul>'') = [py ''A'', py ''B'']"
    by (simp add: convert_notes_to_list_items_def findall_li.simps sub_tags.simps strip_def
        isspace_def Let_def)
  have ex2: "convert_notes_to_list_items (py ''Do X'') = [py ''Do X'']"
    by (simp add: convert_notes_to_list_items_def findall_li.simps sub_tags.simps strip_def
        isspace_def Let_def)
  have blank: "list_all wf_token ts \<longrightarrow> convert_notes_to_list_items (render_markup ts) = []"
    using convert_render by blast
  have markers: "findall_li s \<noteq> [] \<longleftrightarrow> (\<exists>a b c. s = a @ py ''<li>'' @ b @ py ''</li>'' @ c)"
    by (rule findall_li_Nil_iff)
  have items: "findall_li s \<noteq> [] \<longrightarrow>
      convert_notes_to_list_items s =
        filter (\<lambda>x. x \<noteq> []) (map (\<lambda>item. strip (sub_tags item)) (findall_li s))"
    by (simp add: convert_notes_cases)
  have whole: "findall_li s = [] \<longrightarrow>
      convert_notes_to_list_items s =
        (if strip (sub_tags s) \<noteq> [] then [strip (sub_tags s)] else [])"
    by (simp add: convert_notes_cases)
  have each: "\<forall>item items. findall_li s = item # items \<longrightarrow>
      (\<exists>before rest.
         s = before @ py ''<li>'' @ item @ py ''</li>'' @ rest \<and> items = findall_li rest \<and>
         (\<forall>a' b'. s = a' @ py ''<li>'' @ b' \<longrightarrow> length before \<le> length a') \<and>
         (\<forall>a' b'. item @ py ''</li>'' @ rest = a' @ py ''</li>'' @ b' \<longrightarrow>
            length item \<le> length a'))"
    using findall_li_Cons by blast
  show ?thesis
    by (intro conjI) (fact ex1, fact ex2, fact blank, fact markers, fact items, fact whole, fact each)
qed

theorem convert_notes_to_list_items_spec_witness:
  "render_markup blank_notes = py '' <br>'' @ [10] @ py ''<p></p>'' \<and>
   convert_notes_to_list_items (render_markup blank_notes) = [] \<and>
   convert_notes_to_list_items (py ''<li> one </li> text <li><b>two</b></li><li> </li>'') =
     [py ''one'', py ''two''] \<and>
   convert_notes_to_list_items (py ''<p>Restart <b>all</b> services</p> '') =
     [py ''Restart all services'']"
proof -
  let ?s = "py ''<li> one </li> text <li><b>two</b></li><li> </li>''"
  let ?p = "py ''<p>Restart <b>all</b> services</p> ''"
  have r: "render_markup blank_notes = py '' <br>'' @ [10] @ py ''<p></p>''"
    by (simp add: blank_notes_def render_markup_def)
  have wf: "list_all wf_token blank_notes"
    by (simp add: blank_notes_def isspace_def)
  from convert_notes_to_list_items_spec [of blank_notes ?s] wf
  have a: "convert_notes_to_list_items (render_markup blank_notes) = []"
    by blast
  have f: "findall_li ?s = [py '' one '', py ''<b>two</b>'', py '' '']"
    by (simp add: findall_li.simps)
  then have ne: "findall_li ?s \<noteq> []"
    by simp
  from convert_notes_to_list_items_spec [of blank_notes ?s] ne
  have "convert_notes_to_list_items ?s =
      filter (\<lambda>x. x \<noteq> []) (map (\<lambda>item. strip (sub_tags item)) (findall_li ?s))"
    by blast
  then have b: "convert_notes_to_list_items ?s = [py ''one'', py ''two'']"
    unfolding f by (simp add: sub_tags.simps strip_def isspace_def)
  have g: "findall_li ?p = []"
    by (simp add: findall_li.simps)
  from convert_notes_to_list_items_spec [of blank_notes ?p] g
  have "convert_notes_to_list_items ?p =
      (if strip (sub_tags ?p) \<noteq> [] then [strip (sub_tags ?p)] else [])"
    by blast
  then have c: "convert_notes_to_list_items ?p = [py ''Restart all services'']"
    by (simp add: sub_tags.simps strip_def isspace_def)
  from r a b c show ?thesis by blast
qed

section \<open>Changelog group ordering\<close>

text \<open>
  C3. For every list of work items, the changelog is its heading followed by one
  block per type present, in this order: the known types Bug, Epic, Feature, User
  Story, Task, each only if some item has it, and then the remaining types in
  ascending lexical order, each once. The group headings of the section (its lines
  that start with \<open>###\<close>) are the headings of these types in that order, so every
  known type present stands before every other type.
\<close>

theorem changelog_group_order:
  "WORK_ITEM_TYPE_ORDER = [py ''Bug'', py ''Epic'', py ''Feature'', py ''User Story'', py ''Task''] \<and>
   add_changelog_section gen lines (group_work_items_by_type work_items) =
     lines @ [py ''## '' @ [128221] @ py '' Changelog'', []] @
     concat (map (\<lambda>t. add_work_items_for_type gen [] t (filter (\<lambda>w. item_type w = t) work_items))
       (filter (\<lambda>t. t \<in> item_type ` set work_items) WORK_ITEM_TYPE_ORDER @
        filter (\<lambda>t. t \<notin> set WORK_ITEM_TYPE_ORDER) (sort (remdups (map item_type work_items))))) \<and>
   filter (prefix (py ''### ''))
       (add_changelog_section gen [] (group_work_items_by_type work_items)) =
     map (\<lambda>t. group_heading t (filter (\<lambda>w. item_type w = t) work_items))
       (filter (\<lambda>t. t \<in> item_type ` set work_items) WORK_ITEM_TYPE_ORDER @
        filter (\<lambda>t. t \<notin> set WORK_ITEM_TYPE_ORDER) (sort (remdups (map item_type work_items)))) \<and>
   sorted (filter (\<lambda>t. t \<notin> set WORK_ITEM_TYPE_ORDER) (sort (remdups (map item_type work_items)))) \<and>
   distinct (filter (\<lambda>t. t \<notin> set WORK_ITEM_TYPE_ORDER) (sort (remdups (map item_type work_items)))) \<and>
   set (filter (\<lambda>t. t \<notin> set WORK_ITEM_TYPE_ORDER) (sort (remdups (map item_type work_items)))) =
     item_type ` set work_items - set WORK_ITEM_TYPE_ORDER"
proof -
  let ?order = "filter (\<lambda>t. t \<in> item_type ` set work_items) WORK_ITEM_TYPE_ORDER @
        filter (\<lambda>t. t \<notin> set WORK_ITEM_TYPE_ORDER) (sort (remdups (map item_type work_items)))"
  have lines_eq: "add_changelog_section gen ls (group_work_items_by_type work_items) =
     ls @ [py ''## '' @ [128221] @ py '' Changelog'', []] @
     concat (map (\<lambda>t. add_work_items_for_type gen [] t (filter (\<lambda>w. item_type w = t) work_items))
       ?order)" for ls
    by (rule add_changelog_section_grouped)
  have "filter (prefix (py ''### ''))
       (add_changelog_section gen [] (group_work_items_by_type work_items)) =
      concat (map (\<lambda>t. filter (prefix (py ''### ''))
        (add_work_items_for_type gen [] t (filter (\<lambda>w. item_type w = t) work_items))) ?order)"
    unfolding lines_eq [of "[]"] by (simp add: filter_concat_map del: filter_append map_append)
  also have "\<dots> = concat (map (\<lambda>t. [group_heading t (filter (\<lambda>w. item_type w = t) work_items)]) ?order)"
    by (simp only: h3_block)
  also have "\<dots> = map (\<lambda>t. group_heading t (filter (\<lambda>w. item_type w = t) work_items)) ?order"
    by (induction ?order) simp_all
  finally have headings: "filter (prefix (py ''### ''))
       (add_changelog_section gen [] (group_work_items_by_type work_items)) =
     map (\<lambda>t. group_heading t (filter (\<lambda>w. item_type w = t) work_items)) ?order" .
  have srt: "sorted (filter (\<lambda>t. t \<notin> set WORK_ITEM_TYPE_ORDER) (sort (remdups (map item_type work_items))))"
    by (rule sorted_filter [of id, simplified]) simp
  have dst: "distinct (filter (\<lambda>t. t \<notin> set WORK_ITEM_TYPE_ORDER) (sort (remdups (map item_type work_items))))"
    by simp
  have st: "set (filter (\<lambda>t. t \<notin> set WORK_ITEM_TYPE_ORDER) (sort (remdups (map item_type work_items)))) =
     item_type ` set work_items - set WORK_ITEM_TYPE_ORDER"
    by auto
  show ?thesis
    by (intro conjI) (fact WORK_ITEM_TYPE_ORDER_def, fact lines_eq, fact headings, fact srt,
        fact dst, fact st)
qed


theorem changelog_group_order_witness:
  "filter (prefix (py ''### ''))
     (add_changelog_section sample_generator [] (group_work_items_by_type mixed_items)) =
   [py ''### '' @ [128027] @ py '' Bug (2)'', py ''### '' @ [128295] @ py '' Task (1)'',
    py ''### '' @ [128204] @ py '' Alpha (1)'', py ''### '' @ [128204] @ py '' Zeta (1)'']"
proof -
  have types: "map item_type mixed_items =
      [py ''Task'', py ''Zeta'', py ''Bug'', py ''Alpha'', py ''Bug'']"
    by (simp add: mixed_items_def)
  have known: "filter (\<lambda>t. t \<in> item_type ` set mixed_items) WORK_ITEM_TYPE_ORDER =
      [py ''Bug'', py ''Task'']"
    unfolding set_map [symmetric] types by (simp add: WORK_ITEM_TYPE_ORDER_def)
  have other: "filter (\<lambda>t. t \<notin> set WORK_ITEM_TYPE_ORDER) (sort (remdups (map item_type mixed_items))) =
      [py ''Alpha'', py ''Zeta'']"
    unfolding types by (simp add: WORK_ITEM_TYPE_ORDER_def)
  have bug: "group_heading (py ''Bug'') (filter (\<lambda>w. item_type w = py ''Bug'') mixed_items) =
      py ''### '' @ [128027] @ py '' Bug (2)''"
    by (simp add: mixed_items_def group_heading_def Let_def get_work_item_type_emoji_def
        WORK_ITEM_TYPE_EMOJIS_def dict_get_def str_of_nat.simps)
  have task: "group_heading (py ''Task'') (filter (\<lambda>w. item_type w = py ''Task'') mixed_items) =
      py ''### '' @ [128295] @ py '' Task (1)''"
    by (simp add: mixed_items_def group_heading_def Let_def get_work_item_type_emoji_def
        WORK_ITEM_TYPE_EMOJIS_def dict_get_def str_of_nat.simps)
  have alpha: "group_heading (py ''Alpha'') (filter (\<lambda>w. item_type w = py ''Alpha'') mixed_items) =
      py ''### '' @ [128204] @ py '' Alpha (1)''"
    by (simp add: mixed_items_def group_heading_def Let_def get_work_item_type_emoji_def
        WORK_ITEM_TYPE_EMOJIS_def dict_get_def str_of_nat.simps)
  have zeta: "group_heading (py ''Zeta'') (filter (\<lambda>w. item_type w = py ''Zeta'') mixed_items) =
      py ''### '' @ [128204] @ py '' Zeta (1)''"
    by (simp add: mixed_items_def group_heading_def Let_def get_work_item_type_emoji_def
        WORK_ITEM_TYPE_EMOJIS_def dict_get_def str_of_nat.simps)
  have "filter (prefix (py ''### ''))
       (add_changelog_section sample_generator [] (group_work_items_by_type mixed_items)) =
     map (\<lambda>t. group_heading t (filter (\<lambda>w. item_type w = t) mixed_items))
       (filter (\<lambda>t. t \<in> item_type ` set mixed_items) WORK_ITEM_TYPE_ORDER @
        filter (\<lambda>t. t \<notin> set WORK_ITEM_TYPE_ORDER) (sort (remdups (map item_type mixed_items))))"
    by (rule changelog_group_order [of sample_generator "[]" mixed_items,
          THEN conjunct2, THEN conjunct2, THEN conjunct1])
  also have "\<dots> = [group_heading (py ''Bug'') (filter (\<lambda>w. item_type w = py ''Bug'') mixed_items),
      group_heading (py ''Task'') (filter (\<lambda>w. item_type w = py ''Task'') mixed_items),
      group_heading (py ''Alpha'') (filter (\<lambda>w. item_type w = py ''Alpha'') mixed_items),
      group_heading (py ''Zeta'') (filter (\<lambda>w. item_type w = py ''Zeta'') mixed_items)]"
    unfolding known other by (simp only: map_append list.map append.simps)
  finally show ?thesis
    unfolding bug task alpha zeta .
qed

section \<open>Totality of the generator\<close>

text \<open>
  C10. \<open>generate\<close> returns a document whenever every present (non-empty) production
  timestamp of the releases is accepted by the parser after the replacement of \<open>Z\<close>
  by \<open>+00:00\<close>. If a release carries a present timestamp that is the lexical maximum
  of the timestamps and that the parser rejects, the release-date extraction raises
  the parser's exception and \<open>generate\<close> raises it too. The source replaces every
  \<open>Z\<close>; on a timestamp whose only \<open>Z\<close> is the last character that is the replacement
  of the trailing \<open>Z\<close>, and a timestamp without \<open>Z\<close> is left as it is.
\<close>

theorem generate_total_under_valid_timestamps:
  "((\<forall>r\<in>set releases. \<forall>t. prod_deploy_time r = Some t \<and> t \<noteq> [] \<longrightarrow>
        (\<exists>d. fromisoformat (str_replace_char 90 (py ''+00:00'') t) = Inr d)) \<longrightarrow>
      (\<exists>markdown. generate fromisoformat gen release_number work_items releases contributors =
         Inr markdown)) \<and>
   (\<forall>r\<in>set releases. \<forall>t e.
      prod_deploy_time r = Some t \<and> t \<noteq> [] \<and>
      (\<forall>r'\<in>set releases. \<forall>t'. prod_deploy_time r' = Some t' \<longrightarrow> t' \<le> t) \<and>
      fromisoformat (str_replace_char 90 (py ''+00:00'') t) = Inl e \<longrightarrow>
      extract_release_date fromisoformat releases = Inl e \<and>
      generate fromisoformat gen release_number work_items releases contributors = Inl e) \<and>
   (90 \<notin> set u \<longrightarrow>
      str_replace_char 90 (py ''+00:00'') (u @ py ''Z'') = u @ py ''+00:00'' \<and>
      str_replace_char 90 (py ''+00:00'') u = u)"
proof -
  let ?T = "{t. t \<noteq> [] \<and> (\<exists>r\<in>set releases. prod_deploy_time r = Some t)}"
  have fin: "finite ?T"
    by (subst set_prod_times [of releases, symmetric]) (rule List.finite_set)
  have total: "\<exists>markdown. generate fromisoformat gen release_number work_items releases contributors =
         Inr markdown"
    if valid: "\<forall>r\<in>set releases. \<forall>t. prod_deploy_time r = Some t \<and> t \<noteq> [] \<longrightarrow>
        (\<exists>d. fromisoformat (str_replace_char 90 (py ''+00:00'') t) = Inr d)"
  proof -
    have "\<exists>date. extract_release_date fromisoformat releases = Inr date"
    proof (cases "?T = {}")
      case True
      then have "extract_release_date fromisoformat releases = Inr (py ''Unreleased'')"
        by (rule extract_release_date_none)
      then show ?thesis by (rule exI)
    next
      case False
      with fin have "Max ?T \<in> ?T" by (rule Max_in)
      with valid obtain d where
        "fromisoformat (str_replace_char 90 (py ''+00:00'') (Max ?T)) = Inr d"
        by blast
      with extract_release_date_some [OF False, of fromisoformat]
      have "extract_release_date fromisoformat releases = Inr (strftime_B_d_Y d)"
        by simp
      then show ?thesis by (rule exI)
    qed
    then obtain date where "extract_release_date fromisoformat releases = Inr date"
      by blast
    from generate_lines_Inr [OF this, of gen release_number work_items contributors]
    obtain lines where
      "generate_lines fromisoformat gen release_number work_items releases contributors = Inr lines"
      by blast
    then show ?thesis
      by (simp add: generate_cases)
  qed
  have fails: "extract_release_date fromisoformat releases = Inl e \<and>
      generate fromisoformat gen release_number work_items releases contributors = Inl e"
    if r: "r \<in> set releases" and t: "prod_deploy_time r = Some t" "t \<noteq> []"
      and mx: "\<forall>r'\<in>set releases. \<forall>t'. prod_deploy_time r' = Some t' \<longrightarrow> t' \<le> t"
      and bad: "fromisoformat (str_replace_char 90 (py ''+00:00'') t) = Inl e"
    for r t e
  proof -
    from r t have mem: "t \<in> ?T" by blast
    then have ne: "?T \<noteq> {}" by blast
    from mx have "\<And>t'. t' \<in> ?T \<Longrightarrow> t' \<le> t" by blast
    with fin mem have "Max ?T = t" by (intro Max_eqI)
    with extract_release_date_some [OF ne, of fromisoformat] bad
    have ex: "extract_release_date fromisoformat releases = Inl e"
      by simp
    from generate_lines_Inl [OF this, of gen release_number work_items contributors]
    have "generate fromisoformat gen release_number work_items releases contributors = Inl e"
      by (simp add: generate_cases)
    with ex show ?thesis by blast
  qed
  have trailing: "str_replace_char 90 (py ''+00:00'') (u @ py ''Z'') = u @ py ''+00:00'' \<and>
      str_replace_char 90 (py ''+00:00'') u = u" if "90 \<notin> set u"
    using str_replace_char_trailing [OF that, of "py ''+00:00''"] by simp
  show ?thesis
  proof (intro conjI impI ballI allI)
    assume "\<forall>r\<in>set releases. \<forall>t. prod_deploy_time r = Some t \<and> t \<noteq> [] \<longrightarrow>
        (\<exists>d. fromisoformat (str_replace_char 90 (py ''+00:00'') t) = Inr d)"
    then show "\<exists>markdown. generate fromisoformat gen release_number work_items releases contributors =
         Inr markdown"
      by (rule total)
  next
    fix r t e
    assume "r \<in> set releases" and h: "prod_deploy_time r = Some t \<and> t \<noteq> [] \<and>
      (\<forall>r'\<in>set releases. \<forall>t'. prod_deploy_time r' = Some t' \<longrightarrow> t' \<le> t) \<and>
      fromisoformat (str_replace_char 90 (py ''+00:00'') t) = Inl e"
    then show "extract_release_date fromisoformat releases = Inl e"
      using fails [of r t e] by blast
    from \<open>r \<in> set releases\<close> h
    show "generate fromisoformat gen release_number work_items releases contributors = Inl e"
      using fails [of r t e] by blast
  next
    assume "90 \<notin> set u"
    then show "str_replace_char 90 (py ''+00:00'') (u @ py ''Z'') = u @ py ''+00:00''"
      using trailing by blast
    from \<open>90 \<notin> set u\<close> show "str_replace_char 90 (py ''+00:00'') u = u"
      using trailing by blast
  qed
qed


theorem generate_total_under_valid_timestamps_witness:
  "(\<exists>markdown.
      generate sample_fromisoformat sample_generator (py ''2025.006'') mixed_items sample_releases
        {|py ''Alice''|} = Inr markdown) \<and>
   generate sample_fromisoformat sample_generator (py ''2025.006'') mixed_items late_releases
     {|py ''Alice''|} = Inl ValueError"
proof -
  have valid: "\<forall>r\<in>set sample_releases. \<forall>t. prod_deploy_time r = Some t \<and> t \<noteq> [] \<longrightarrow>
        (\<exists>d. sample_fromisoformat (str_replace_char 90 (py ''+00:00'') t) = Inr d)"
    by (simp add: sample_releases_def sample_fromisoformat_def str_replace_char_def)
  from generate_total_under_valid_timestamps
    [of sample_releases sample_fromisoformat sample_generator "py ''2025.006''" mixed_items
      "{|py ''Alice''|}", THEN conjunct1] valid
  have a: "\<exists>markdown.
      generate sample_fromisoformat sample_generator (py ''2025.006'') mixed_items sample_releases
        {|py ''Alice''|} = Inr markdown"
    by (rule mp)
  let ?late = "\<lparr>microservice = py ''billing'', version = py ''v3.0.0'',
       prod_deploy_time = Some (py ''2025-13-01T00:00:00Z''),
       release_id = py ''125'', definition_id = py ''458''\<rparr>"
  have mem: "?late \<in> set late_releases"
    by (simp add: late_releases_def)
  have latest: "prod_deploy_time ?late = Some (py ''2025-13-01T00:00:00Z'') \<and>
      py ''2025-13-01T00:00:00Z'' \<noteq> [] \<and>
      (\<forall>r'\<in>set late_releases. \<forall>t'. prod_deploy_time r' = Some t' \<longrightarrow>
         t' \<le> py ''2025-13-01T00:00:00Z'') \<and>
      sample_fromisoformat (str_replace_char 90 (py ''+00:00'') (py ''2025-13-01T00:00:00Z'')) =
        Inl ValueError"
    by (simp add: late_releases_def sample_releases_def sample_fromisoformat_def
        str_replace_char_def)
  from generate_total_under_valid_timestamps
    [of late_releases sample_fromisoformat sample_generator "py ''2025.006''" mixed_items
      "{|py ''Alice''|}", THEN conjunct2, THEN conjunct1] mem latest
  have b: "generate sample_fromisoformat sample_generator (py ''2025.006'') mixed_items late_releases
     {|py ''Alice''|} = Inl ValueError"
    by blast
  from a b show ?thesis by (rule conjI)
qed

section \<open>Section omission\<close>

text \<open>
  C5. For every input on which the generator returns its lines: the second-level
  headings among the lines are Summary, then Binaries if and only if the releases list
  is not empty, then Changelog, then Deployment Instructions if and only if some work
  item has notes that are not empty, then Contributors if and only if the contributors
  set is not empty. The table lines are the table header, the separator and one row
  per release when the releases list is not empty, and there is none otherwise. So
  each of the three headings, and the table, is a line of the document exactly when
  its input is not empty. The source reads empty notes as absent ones; notes of the
  data model, when present, are never empty, and for such work items the Deployment
  Instructions heading is a line exactly when some work item has notes. The statement
  is about the lines the generator emits: a title or a name may itself contain the
  text of a heading.
\<close>

theorem sections_present_iff_input_nonempty:
  assumes "generate_lines fromisoformat gen release_number work_items releases contributors = Inr lines"
  shows
    "filter (prefix (py ''## '')) lines =
       [py ''## '' @ [128202] @ py '' Summary''] @
       (if releases \<noteq> [] then [py ''## '' @ [128230] @ py '' Binaries''] else []) @
       [py ''## '' @ [128221] @ py '' Changelog''] @
       (if \<exists>w\<in>set work_items. truthy (item_notes w)
        then [py ''## '' @ [128640] @ py '' Deployment Instructions''] else []) @
       (if contributors \<noteq> {||} then [py ''## '' @ [128101] @ py '' Contributors''] else []) \<and>
     filter (prefix (py ''|'')) lines =
       (if releases \<noteq> []
        then [py ''| Microservice | Version |'', py ''|--------------|---------|''] @
             map (binaries_row gen) (sort_key microservice releases)
        else []) \<and>
     (py ''## '' @ [128230] @ py '' Binaries'' \<in> set lines \<longleftrightarrow> releases \<noteq> []) \<and>
     (py ''| Microservice | Version |'' \<in> set lines \<longleftrightarrow> releases \<noteq> []) \<and>
     (py ''## '' @ [128101] @ py '' Contributors'' \<in> set lines \<longleftrightarrow> contributors \<noteq> {||}) \<and>
     (py ''## '' @ [128640] @ py '' Deployment Instructions'' \<in> set lines \<longleftrightarrow>
        (\<exists>w\<in>set work_items. truthy (item_notes w))) \<and>
     ((\<forall>w\<in>set work_items. item_notes w \<noteq> Some []) \<longrightarrow>
        (py ''## '' @ [128640] @ py '' Deployment Instructions'' \<in> set lines \<longleftrightarrow>
           (\<exists>w\<in>set work_items. item_notes w \<noteq> None)))"
proof -
  obtain date where date: "extract_release_date fromisoformat releases = Inr date"
  proof (cases "extract_release_date fromisoformat releases")
    case (Inl e)
    from generate_lines_Inl [OF this, of gen release_number work_items contributors] assms(1)
    show ?thesis by simp
  next
    case (Inr d)
    then show ?thesis by (rule that)
  qed
  from generate_lines_Inr [OF date, of gen release_number work_items contributors] assms(1)
  obtain B1 B3 B4 B5 where
    plain: "list_all plain_line B1" "list_all plain_line B3" "list_all plain_line B4"
      "list_all plain_line B5"
    and lines: "lines =
       [py ''# Release Notes - '' @ release_number, [], py ''## '' @ [128202] @ py '' Summary''] @ B1 @
            (if releases = [] then []
             else [py ''## '' @ [128230] @ py '' Binaries'', [], py ''| Microservice | Version |'',
                   py ''|--------------|---------|''] @
                  map (binaries_row gen) (sort_key microservice releases) @ [[]]) @
            [py ''## '' @ [128221] @ py '' Changelog''] @ B3 @
            (if \<exists>w\<in>set work_items. truthy (item_notes w)
             then [py ''## '' @ [128640] @ py '' Deployment Instructions''] @ B4 else []) @
            (if contributors \<noteq> {||} then [py ''## '' @ [128101] @ py '' Contributors''] @ B5 else [])"
    by auto
  note f1 = filter_plain [OF plain(1), simplified]
  note f3 = filter_plain [OF plain(2), simplified]
  note f4 = filter_plain [OF plain(3), simplified]
  note f5 = filter_plain [OF plain(4), simplified]
  note fr = filter_binaries_rows [of gen "sort_key microservice releases", simplified]
  have h2: "filter (prefix (py ''## '')) lines =
       [py ''## '' @ [128202] @ py '' Summary''] @
       (if releases \<noteq> [] then [py ''## '' @ [128230] @ py '' Binaries''] else []) @
       [py ''## '' @ [128221] @ py '' Changelog''] @
       (if \<exists>w\<in>set work_items. truthy (item_notes w)
        then [py ''## '' @ [128640] @ py '' Deployment Instructions''] else []) @
       (if contributors \<noteq> {||} then [py ''## '' @ [128101] @ py '' Contributors''] else [])"
    unfolding lines
    by (simp add: f1 f3 f4 f5 fr)
  have bar: "filter (prefix (py ''|'')) lines =
       (if releases \<noteq> []
        then [py ''| Microservice | Version |'', py ''|--------------|---------|''] @
             map (binaries_row gen) (sort_key microservice releases)
        else [])"
    unfolding lines
    by (simp add: f1 f3 f4 f5 fr)
  have b: "py ''## '' @ [128230] @ py '' Binaries'' \<in> set lines \<longleftrightarrow> releases \<noteq> []"
  proof -
    have "py ''## '' @ [128230] @ py '' Binaries'' \<in> set lines \<longleftrightarrow>
        py ''## '' @ [128230] @ py '' Binaries'' \<in> set (filter (prefix (py ''## '')) lines)"
      by simp
    also have "\<dots> \<longleftrightarrow> releases \<noteq> []"
      unfolding h2 by simp
    finally show ?thesis .
  qed
  have t: "py ''| Microservice | Version |'' \<in> set lines \<longleftrightarrow> releases \<noteq> []"
  proof -
    have "py ''| Microservice | Version |'' \<in> set lines \<longleftrightarrow>
        py ''| Microservice | Version |'' \<in> set (filter (prefix (py ''|'')) lines)"
      by simp
    also have "\<dots> \<longleftrightarrow> releases \<noteq> []"
      unfolding bar by simp
    finally show ?thesis .
  qed
  have c: "py ''## '' @ [128101] @ py '' Contributors'' \<in> set lines \<longleftrightarrow> contributors \<noteq> {||}"
  proof -
    have "py ''## '' @ [128101] @ py '' Contributors'' \<in> set lines \<longleftrightarrow>
        py ''## '' @ [128101] @ py '' Contributors'' \<in> set (filter (prefix (py ''## '')) lines)"
      by simp
    also have "\<dots> \<longleftrightarrow> contributors \<noteq> {||}"
      unfolding h2 by simp
    finally show ?thesis .
  qed
  have d: "py ''## '' @ [128640] @ py '' Deployment Instructions'' \<in> set lines \<longleftrightarrow>
        (\<exists>w\<in>set work_items. truthy (item_notes w))"
  proof -
    have "py ''## '' @ [128640] @ py '' Deployment Instructions'' \<in> set lines \<longleftrightarrow>
        py ''## '' @ [128640] @ py '' Deployment Instructions'' \<in>
          set (filter (prefix (py ''## '')) lines)"
      by simp
    also have "\<dots> \<longleftrightarrow> (\<exists>w\<in>set work_items. truthy (item_notes w))"
      unfolding h2 by simp
    finally show ?thesis .
  qed
  have d': "(\<forall>w\<in>set work_items. item_notes w \<noteq> Some []) \<longrightarrow>
        (py ''## '' @ [128640] @ py '' Deployment Instructions'' \<in> set lines \<longleftrightarrow>
           (\<exists>w\<in>set work_items. item_notes w \<noteq> None))"
    using d truthy_iff_present [of work_items] by simp
  show ?thesis
    by (intro conjI) (fact h2, fact bar, fact b, fact t, fact c, fact d, fact d')
qed

theorem sections_present_iff_input_nonempty_witness:
  "(\<exists>lines.
      generate_lines sample_fromisoformat sample_generator (py ''2025.006'') mixed_items
        sample_releases {|py ''Alice''|} = Inr lines \<and>
      py ''## '' @ [128230] @ py '' Binaries'' \<in> set lines \<and>
      py ''## '' @ [128101] @ py '' Contributors'' \<in> set lines \<and>
      py ''## '' @ [128640] @ py '' Deployment Instructions'' \<in> set lines) \<and>
   (\<exists>lines.
      generate_lines sample_fromisoformat sample_generator (py ''2025.006'') plain_items [] {||} =
        Inr lines \<and>
      py ''## '' @ [128230] @ py '' Binaries'' \<notin> set lines \<and>
      py ''## '' @ [128101] @ py '' Contributors'' \<notin> set lines \<and>
      py ''## '' @ [128640] @ py '' Deployment Instructions'' \<notin> set lines)"
proof -
  have valid: "\<forall>r\<in>set sample_releases. \<forall>t. prod_deploy_time r = Some t \<and> t \<noteq> [] \<longrightarrow>
        (\<exists>d. sample_fromisoformat (str_replace_char 90 (py ''+00:00'') t) = Inr d)"
    by (simp add: sample_releases_def sample_fromisoformat_def str_replace_char_def)
  from extract_release_date_total [OF valid] obtain date where
    "extract_release_date sample_fromisoformat sample_releases = Inr date"
    by blast
  from generate_lines_Inr [OF this, of sample_generator "py ''2025.006''" mixed_items "{|py ''Alice''|}"]
  obtain lines1 where l1: "generate_lines sample_fromisoformat sample_generator (py ''2025.006'')
      mixed_items sample_releases {|py ''Alice''|} = Inr lines1"
    by blast
  have wf1: "\<forall>w\<in>set mixed_items. item_notes w \<noteq> Some []"
    by (simp add: mixed_items_def)
  have in1: "sample_releases \<noteq> []" "{|py ''Alice''|} \<noteq> {||}"
    "\<exists>w\<in>set mixed_items. item_notes w \<noteq> None"
    by (simp_all add: sample_releases_def mixed_items_def)
  note s1 = sections_present_iff_input_nonempty [OF l1]
  from s1 wf1 in1 have a:
    "py ''## '' @ [128230] @ py '' Binaries'' \<in> set lines1"
    "py ''## '' @ [128101] @ py '' Contributors'' \<in> set lines1"
    "py ''## '' @ [128640] @ py '' Deployment Instructions'' \<in> set lines1"
    by blast+
  have "extract_release_date sample_fromisoformat [] = Inr (py ''Unreleased'')"
    by (simp add: extract_release_date_def)
  from generate_lines_Inr [OF this, of sample_generator "py ''2025.006''" plain_items "{||}"]
  obtain lines2 where l2: "generate_lines sample_fromisoformat sample_generator (py ''2025.006'')
      plain_items [] {||} = Inr lines2"
    by blast
  have wf2: "\<forall>w\<in>set plain_items. item_notes w \<noteq> Some []"
    by (simp add: plain_items_def)
  have in2: "\<not> (\<exists>w\<in>set plain_items. item_notes w \<noteq> None)"
    by (simp add: plain_items_def)
  note s2 = sections_present_iff_input_nonempty [OF l2]
  from s2 wf2 in2 have b:
    "py ''## '' @ [128230] @ py '' Binaries'' \<notin> set lines2"
    "py ''## '' @ [128101] @ py '' Contributors'' \<notin> set lines2"
    "py ''## '' @ [128640] @ py '' Deployment Instructions'' \<notin> set lines2"
    by blast+
  from l1 a l2 b show ?thesis by blast
qed

section \<open>Sort order of the changelog\<close>

text \<open>
  C9. The option \<open>--sort-by\<close> is to select the order of the work items within a
  changelog group: by title, or by id. The source does not carry the selection out.
  The script passes the option's value to the constructor of the generator as a third
  argument, which the constructor does not take, so the construction raises
  \<open>TypeError\<close> whatever the value is; and the generator orders every group by id: two
  bugs whose titles are in the reverse order of their ids are rendered in the order
  of their ids.
\<close>

theorem sort_by_title_not_honoured:
  "main_generate fromisoformat organization project_name (py ''title'') release work_items
     releases contributors = Inl TypeError \<and>
   main_generate fromisoformat organization project_name (py ''id'') release work_items
     releases contributors = Inl TypeError \<and>
   add_work_items_for_type sample_generator [] (py ''Bug'') title_order_items =
     [py ''### '' @ [128027] @ py '' Bug (2)'', [],
      py ''- [#1](https://dev.azure.com/testorg/TestProject/_workitems/edit/1) Beta'',
      py ''- [#2](https://dev.azure.com/testorg/TestProject/_workitems/edit/2) Alpha'', []]"
proof -
  have a: "main_generate fromisoformat organization project_name sort_by release work_items
     releases contributors = Inl TypeError" for sort_by
    by (simp add: main_generate_def MarkdownGenerator_init_def)
  have b: "add_work_items_for_type sample_generator [] (py ''Bug'') title_order_items =
     [py ''### '' @ [128027] @ py '' Bug (2)'', [],
      py ''- [#1](https://dev.azure.com/testorg/TestProject/_workitems/edit/1) Beta'',
      py ''- [#2](https://dev.azure.com/testorg/TestProject/_workitems/edit/2) Alpha'', []]"
    by (simp add: add_work_items_for_type_lines title_order_items_def group_heading_def
        changelog_line_def build_work_item_url_def sample_generator_def Let_def
        get_work_item_type_emoji_def WORK_ITEM_TYPE_EMOJIS_def dict_get_def str_of_int_def
        str_of_nat.simps)
  from a b show ?thesis by simp
qed

end
